theory Spec2Isabelle
  imports Complex_Main "HOL-Library.Word" "HOL-Library.Log_Nat"
begin

unbundle bit_operations_syntax

section \<open>The pipeline hazard tracker (Stats.cpp)\<close>

text \<open>
  Modelled from the spec: the header Stats.h is not among the sources. The stage
  names and their order are those of the spec's data model (Fetch1, Fetch2, Decode,
  Execute1, Execute2, Mem1, Mem2, Writeback: 8 stages) and of the column header that
  \<^verbatim>\<open>Stats::showPipe\<close> prints (IF1 IF2 ID EXE1 EXE2 MEM1 MEM2 WB); the slot array
  \<^verbatim>\<open>resultReg\<close> has \<^verbatim>\<open>PIPESTAGES\<close> entries.
\<close>

definition IF1 :: nat where "IF1 = 0"
definition IF2 :: nat where "IF2 = 1"
definition ID :: nat where "ID = 2"
definition EXE1 :: nat where "EXE1 = 3"
definition EXE2 :: nat where "EXE2 = 4"
definition MEM1 :: nat where "MEM1 = 5"
definition MEM2 :: nat where "MEM2 = 6"
definition WB :: nat where "WB = 7"
definition PIPESTAGES :: nat where "PIPESTAGES = 8"

text \<open>The fields of class Stats: six \<^verbatim>\<open>int\<close> counters and the slot array.\<close>

record Stats =
  cycles :: int
  flushes :: int
  bubbles :: int
  memops :: int
  branches :: int
  taken :: int
  resultReg :: "int list"

datatype error = OutOfBounds

text \<open>\<^verbatim>\<open>Stats::Stats()\<close>: the counters and an array of 8 empty slots (-1).\<close>

definition Stats_ctor :: Stats where
  "Stats_ctor = \<lparr> cycles = int PIPESTAGES - 1, flushes = 0, bubbles = 0,
                  memops = 0, branches = 0, taken = 0,
                  resultReg = replicate PIPESTAGES (-1) \<rparr>"

text \<open>
  The shifting loop shared by clock, flush and bubble:
  \<^verbatim>\<open>for (int i = WB; i > lo; i--) resultReg[i] = resultReg[i-1];\<close>
  The indices are between 1 and WB, inside an array of 8 entries.
\<close>

fun shift_loop :: "nat \<Rightarrow> nat \<Rightarrow> int list \<Rightarrow> int list" where
  "shift_loop 0 lo xs = xs"
| "shift_loop (Suc k) lo xs =
     (if Suc k > lo then shift_loop k lo (xs[Suc k := xs ! k]) else xs)"

text \<open>\<^verbatim>\<open>Stats::clock()\<close>\<close>

definition clock :: "Stats \<Rightarrow> Stats" where
  "clock s =
     (let s1 = s\<lparr>cycles := cycles s + 1\<rparr>;
          s2 = s1\<lparr>resultReg := shift_loop WB IF1 (resultReg s1)\<rparr>
      in s2\<lparr>resultReg := (resultReg s2)[IF1 := -1]\<rparr>)"

text \<open>\<^verbatim>\<open>Stats::bubble()\<close>\<close>

definition bubble :: "Stats \<Rightarrow> Stats" where
  "bubble s =
     (let s1 = s\<lparr>bubbles := bubbles s + 1\<rparr>;
          s2 = s1\<lparr>cycles := cycles s1 + 1\<rparr>;
          s3 = s2\<lparr>resultReg := shift_loop WB EXE1 (resultReg s2)\<rparr>
      in s3\<lparr>resultReg := (resultReg s3)[EXE1 := -1]\<rparr>)"

text \<open>
  \<^verbatim>\<open>Stats::registerSrc(int r)\<close>. The inner loop
  \<^verbatim>\<open>for (int j = i; j < WB; j++) bubble();\<close> and the outer loop
  \<^verbatim>\<open>for (int i = EXE1; i < WB; i++) if (resultReg[i] == r) ...\<close>, which reads the
  array as the bubbles inserted so far have left it.
\<close>

function bubble_loop :: "nat \<Rightarrow> Stats \<Rightarrow> Stats" where
  "bubble_loop j s = (if j < WB then bubble_loop (Suc j) (bubble s) else s)"
  by pat_completeness auto
termination
  by (relation "measure (\<lambda>(j, s). WB - j)") auto

definition registerSrc_check :: "nat \<Rightarrow> int \<Rightarrow> Stats \<Rightarrow> Stats" where
  \<comment> \<open>the body of the outer loop at position i\<close>
  "registerSrc_check i r s = (if resultReg s ! i = r then bubble_loop i s else s)"

function registerSrc_loop :: "nat \<Rightarrow> int \<Rightarrow> Stats \<Rightarrow> Stats" where
  "registerSrc_loop i r s =
     (if i < WB then registerSrc_loop (Suc i) r (registerSrc_check i r s) else s)"
  by pat_completeness auto
termination
  by (relation "measure (\<lambda>(i, r, s). WB - i)") auto

definition registerSrc :: "int \<Rightarrow> Stats \<Rightarrow> Stats" where
  "registerSrc r s = (if r = 0 then s else registerSrc_loop EXE1 r s)"

text \<open>\<^verbatim>\<open>Stats::registerDest(int r)\<close>\<close>

definition registerDest :: "int \<Rightarrow> Stats \<Rightarrow> Stats" where
  "registerDest r s = s\<lparr>resultReg := (resultReg s)[ID := r]\<rparr>"

text \<open>
  \<^verbatim>\<open>Stats::flush(int count)\<close>. The inner loop declares its own \<^verbatim>\<open>i\<close>; the store
  after it, \<^verbatim>\<open>resultReg[i]=-1\<close>, is indexed by the outer loop's counter. A store
  at an index outside the 8 entries has no defined behaviour in C++: the model
  stops there with \<open>OutOfBounds\<close>.
\<close>

definition flush_body :: "nat \<Rightarrow> Stats \<Rightarrow> error + Stats" where
  "flush_body i s =
     (let s1 = s\<lparr>cycles := cycles s + 1\<rparr>;
          s2 = s1\<lparr>flushes := flushes s1 + 1\<rparr>;
          s3 = s2\<lparr>resultReg := shift_loop WB IF1 (resultReg s2)\<rparr>
      in if i < length (resultReg s3)
         then Inr (s3\<lparr>resultReg := (resultReg s3)[i := -1]\<rparr>)
         else Inl OutOfBounds)"

function flush_loop :: "nat \<Rightarrow> int \<Rightarrow> Stats \<Rightarrow> error + Stats" where
  "flush_loop i count s =
     (if int i < count
      then (case flush_body i s of
              Inl e \<Rightarrow> Inl e
            | Inr s' \<Rightarrow> flush_loop (Suc i) count s')
      else Inr s)"
  by pat_completeness auto
termination
  by (relation "measure (\<lambda>(i, count, s). nat (count - int i))") auto

definition flush :: "int \<Rightarrow> Stats \<Rightarrow> error + Stats" where
  "flush count s = flush_loop 0 count s"

text \<open>
  Modelled from the spec: the counting operations are defined in Stats.h, which is
  not among the sources; each increments its counter by 1 and changes nothing else.
\<close>

definition countMemOp :: "Stats \<Rightarrow> Stats" where
  "countMemOp s = s\<lparr>memops := memops s + 1\<rparr>"

definition countBranch :: "Stats \<Rightarrow> Stats" where
  "countBranch s = s\<lparr>branches := branches s + 1\<rparr>"

definition countTaken :: "Stats \<Rightarrow> Stats" where
  "countTaken s = s\<lparr>taken := taken s + 1\<rparr>"

section \<open>The processor core driver (CPU.cpp)\<close>

type_synonym w32 = "32 word"

text \<open>
  The operation tags that decode passes to the arithmetic unit. The tag the source
  calls \<^verbatim>\<open>AND\<close> is \<open>AND_alu\<close> here.
\<close>

datatype aluop = ADD | AND_alu | SHF_L | SHF_R | CMP_LT | MUL | DIV

text \<open>
  The collaborators whose code is not among the sources (Memory, ALU, the constants of
  CPU.h) are parameters: the instruction memory's \<^verbatim>\<open>loadWord\<close>, the data memory's
  \<^verbatim>\<open>loadWord\<close>, \<^verbatim>\<open>storeWord(data, addr)\<close> and \<^verbatim>\<open>getSize\<close> over a memory state
  \<open>'m\<close>, the arithmetic unit's \<^verbatim>\<open>op\<close>, \<^verbatim>\<open>getUpper\<close> and \<^verbatim>\<open>getLower\<close> over a
  unit state \<open>'a\<close>, and the hazard index \<^verbatim>\<open>REG_HILO\<close> of the hi/lo pair. A memory
  access that ends the process is outside the driver's code and is not modelled.
\<close>

record ('m, 'a) env =
  iMem_loadWord :: "w32 \<Rightarrow> w32"
  dMem_loadWord :: "'m \<Rightarrow> w32 \<Rightarrow> w32"
  dMem_storeWord :: "'m \<Rightarrow> w32 \<Rightarrow> w32 \<Rightarrow> 'm"
  dMem_getSize :: "'m \<Rightarrow> w32"
  alu_op :: "'a \<Rightarrow> aluop \<Rightarrow> w32 \<Rightarrow> w32 \<Rightarrow> w32 \<times> 'a"
  alu_getUpper :: "'a \<Rightarrow> w32"
  alu_getLower :: "'a \<Rightarrow> w32"
  REG_HILO :: int

text \<open>
  Modelled from the spec: CPU.h is not among the sources. The register file has 32
  registers with index 0 the zero register; in the table \<^verbatim>\<open>regNames\<close> of CPU.cpp
  \<^verbatim>\<open>$zero\<close> is entry 0 and \<^verbatim>\<open>$ra\<close> entry 31 of 32.
\<close>

definition NREGS :: nat where "NREGS = 32"
definition REG_ZERO :: nat where "REG_ZERO = 0"
definition REG_RA :: nat where "REG_RA = 31"

text \<open>The messages written to \<^verbatim>\<open>cerr\<close>, each with the address \<^verbatim>\<open>pc - 4\<close> it prints.\<close>

datatype diag = UnimplementedInstruction w32 | UnimplementedTrap w32

text \<open>
  The fields of class CPU that the driver's code names. \<open>destReg\<close> is compared with
  0 and used as an index: it is read as an integer. \<open>istats\<close> is the object on which
  the bne case calls \<^verbatim>\<open>countBranch\<close>; its declaration is not among the sources, and
  it is kept as a tracker of its own, distinct from \<open>stats\<close>. \<open>cin\<close> holds the
  numbers still to be read from the console, \<open>cerr\<close> the diagnostics written so far;
  what is written to \<^verbatim>\<open>cout\<close> is not modelled.
\<close>

record ('m, 'a) CPU =
  pc :: w32
  instr :: w32
  regFile :: "w32 list"
  hi :: w32
  lo :: w32
  instructions :: int
  stop :: bool
  writeDest :: bool
  opIsLoad :: bool
  opIsStore :: bool
  opIsMultDiv :: bool
  destReg :: int
  aluOp :: aluop
  aluSrc1 :: w32
  aluSrc2 :: w32
  storeData :: w32
  aluOut :: w32
  writeData :: w32
  dMem :: 'm
  alu :: 'a
  stats :: Stats
  istats :: Stats
  cin :: "w32 list"
  cerr :: "diag list"

text \<open>
  \<^verbatim>\<open>CPU::CPU(pc, iMem, dMem)\<close>: the constructor assigns the fields below and leaves
  the others (the control signals, \<open>destReg\<close>, the latches) as they were, so the
  model takes them from the record it is given. The trackers are constructed fresh.
\<close>

definition CPU_ctor :: "('m, 'a) env \<Rightarrow> w32 \<Rightarrow> 'm \<Rightarrow> ('m, 'a) CPU \<Rightarrow> ('m, 'a) CPU" where
  "CPU_ctor E pc0 dm c =
     c\<lparr>pc := pc0, dMem := dm,
       regFile := (replicate NREGS 0)[28 := 0x10008000,
                                       29 := 0x10000000 + dMem_getSize E dm],
       hi := 0, lo := 0, instructions := 0, stop := False,
       stats := Stats_ctor, istats := Stats_ctor\<rparr>"

text \<open>\<^verbatim>\<open>CPU::fetch()\<close>\<close>

definition fetch :: "('m, 'a) env \<Rightarrow> ('m, 'a) CPU \<Rightarrow> ('m, 'a) CPU" where
  "fetch E c = (let c1 = c\<lparr>instr := iMem_loadWord E (pc c)\<rparr> in c1\<lparr>pc := pc c1 + 4\<rparr>)"

text \<open>The calls that decode makes on the tracker \<^verbatim>\<open>stats\<close>.\<close>

definition stats_registerDest :: "int \<Rightarrow> ('m, 'a) CPU \<Rightarrow> ('m, 'a) CPU" where
  "stats_registerDest r c = c\<lparr>stats := registerDest r (stats c)\<rparr>"

definition stats_registerSrc :: "int \<Rightarrow> ('m, 'a) CPU \<Rightarrow> ('m, 'a) CPU" where
  "stats_registerSrc r c = c\<lparr>stats := registerSrc r (stats c)\<rparr>"

definition stats_flush :: "int \<Rightarrow> ('m, 'a) CPU \<Rightarrow> error + ('m, 'a) CPU" where
  "stats_flush n c =
     (case flush n (stats c) of Inl e \<Rightarrow> Inl e | Inr st \<Rightarrow> Inr (c\<lparr>stats := st\<rparr>))"

text \<open>The fields of the instruction word, as decode extracts them.\<close>

definition f_opcode :: "w32 \<Rightarrow> w32" where "f_opcode i = drop_bit 26 i"
definition f_rs :: "w32 \<Rightarrow> w32" where "f_rs i = drop_bit 21 i AND 0x1f"
definition f_rt :: "w32 \<Rightarrow> w32" where "f_rt i = drop_bit 16 i AND 0x1f"
definition f_rd :: "w32 \<Rightarrow> w32" where "f_rd i = drop_bit 11 i AND 0x1f"
definition f_shamt :: "w32 \<Rightarrow> w32" where "f_shamt i = drop_bit 6 i AND 0x1f"
definition f_funct :: "w32 \<Rightarrow> w32" where "f_funct i = i AND 0x3f"
definition f_uimm :: "w32 \<Rightarrow> w32" where "f_uimm i = i AND 0xffff"
definition f_simm :: "w32 \<Rightarrow> w32" where
  "f_simm i = signed_drop_bit 16 (push_bit 16 (f_uimm i))"
definition f_addr :: "w32 \<Rightarrow> w32" where "f_addr i = i AND 0x3ffffff"

text \<open>The cases of decode's switch, one definition for each, statements in source order.\<close>

definition decode_shift :: "aluop \<Rightarrow> w32 \<Rightarrow> w32 \<Rightarrow> w32 \<Rightarrow> ('m, 'a) CPU \<Rightarrow> ('m, 'a) CPU" where
  \<comment> \<open>sll (SHF_L) and sra (SHF_R)\<close>
  "decode_shift opr rd rs shamt c =
     (let c = c\<lparr>writeDest := True\<rparr>;
          c = c\<lparr>destReg := uint rd\<rparr>;
          c = stats_registerDest (uint rd) c;
          c = c\<lparr>aluOp := opr\<rparr>;
          c = c\<lparr>aluSrc1 := regFile c ! unat rs\<rparr>;
          c = stats_registerSrc (uint rs) c
      in c\<lparr>aluSrc2 := shamt\<rparr>)"

definition decode_jr :: "w32 \<Rightarrow> ('m, 'a) CPU \<Rightarrow> error + ('m, 'a) CPU" where
  "decode_jr rs c = stats_flush 2 (c\<lparr>pc := regFile c ! unat rs\<rparr>)"

definition decode_mfhilo :: "('m, 'a) env \<Rightarrow> w32 \<Rightarrow> w32 \<Rightarrow> ('m, 'a) CPU \<Rightarrow> ('m, 'a) CPU" where
  \<comment> \<open>mfhi (source \<^verbatim>\<open>hi\<close>) and mflo (source \<^verbatim>\<open>lo\<close>)\<close>
  "decode_mfhilo E src rd c =
     (let c = c\<lparr>writeDest := True\<rparr>;
          c = c\<lparr>destReg := uint rd\<rparr>;
          c = stats_registerDest (uint rd) c;
          c = c\<lparr>aluOp := ADD\<rparr>;
          c = c\<lparr>aluSrc1 := src\<rparr>;
          c = stats_registerSrc (REG_HILO E) c
      in c\<lparr>aluSrc2 := regFile c ! REG_ZERO\<rparr>)"

definition decode_multdiv :: "('m, 'a) env \<Rightarrow> aluop \<Rightarrow> w32 \<Rightarrow> w32 \<Rightarrow> ('m, 'a) CPU \<Rightarrow> ('m, 'a) CPU" where
  \<comment> \<open>mult (MUL) and div (DIV)\<close>
  "decode_multdiv E opr rs rt c =
     (let c = c\<lparr>opIsMultDiv := True\<rparr>;
          c = stats_registerDest (REG_HILO E) c;
          c = c\<lparr>aluOp := opr\<rparr>;
          c = c\<lparr>aluSrc1 := regFile c ! unat rs\<rparr>;
          c = stats_registerSrc (uint rs) c;
          c = c\<lparr>aluSrc2 := regFile c ! unat rt\<rparr>
      in stats_registerSrc (uint rt) c)"

definition decode_addu :: "w32 \<Rightarrow> w32 \<Rightarrow> w32 \<Rightarrow> ('m, 'a) CPU \<Rightarrow> ('m, 'a) CPU" where
  "decode_addu rd rs rt c =
     (let c = c\<lparr>writeDest := True\<rparr>;
          c = c\<lparr>destReg := uint rd\<rparr>;
          c = stats_registerDest (uint rd) c;
          c = c\<lparr>aluOp := ADD\<rparr>;
          c = c\<lparr>aluSrc1 := regFile c ! unat rs\<rparr>;
          c = stats_registerSrc (uint rs) c;
          c = c\<lparr>aluSrc2 := regFile c ! unat rt\<rparr>
      in stats_registerSrc (uint rt) c)"

definition decode_subu :: "w32 \<Rightarrow> w32 \<Rightarrow> w32 \<Rightarrow> ('m, 'a) CPU \<Rightarrow> ('m, 'a) CPU" where
  "decode_subu rd rs rt c =
     (let c = c\<lparr>writeDest := True\<rparr>;
          c = c\<lparr>destReg := uint rd\<rparr>;
          c = stats_registerDest (uint rd) c;
          c = c\<lparr>aluOp := ADD\<rparr>;
          c = c\<lparr>aluSrc1 := regFile c ! unat rs\<rparr>;
          c = stats_registerSrc (uint rs) c;
          c = c\<lparr>aluSrc2 := - (regFile c ! unat rt)\<rparr>
      in stats_registerSrc (uint rt) c)"

definition decode_slt :: "w32 \<Rightarrow> w32 \<Rightarrow> w32 \<Rightarrow> ('m, 'a) CPU \<Rightarrow> ('m, 'a) CPU" where
  \<comment> \<open>the slt case makes no \<^verbatim>\<open>registerDest\<close> call\<close>
  "decode_slt rd rs rt c =
     (let c = c\<lparr>writeDest := True\<rparr>;
          c = c\<lparr>destReg := uint rd\<rparr>;
          c = c\<lparr>aluOp := CMP_LT\<rparr>;
          c = c\<lparr>aluSrc1 := regFile c ! unat rs\<rparr>;
          c = stats_registerSrc (uint rs) c;
          c = c\<lparr>aluSrc2 := regFile c ! unat rt\<rparr>
      in stats_registerSrc (uint rt) c)"

definition decode_unimplemented :: "('m, 'a) CPU \<Rightarrow> ('m, 'a) CPU" where
  \<comment> \<open>both \<^verbatim>\<open>default:\<close> labels: the message on cerr\<close>
  "decode_unimplemented c = c\<lparr>cerr := cerr c @ [UnimplementedInstruction (pc c - 4)]\<rparr>"

definition jump_target :: "w32 \<Rightarrow> w32 \<Rightarrow> w32" where
  "jump_target p addr = (p AND 0xf0000000) OR push_bit 2 addr"

definition decode_j :: "w32 \<Rightarrow> ('m, 'a) CPU \<Rightarrow> error + ('m, 'a) CPU" where
  "decode_j addr c =
     (let c = c\<lparr>writeDest := False\<rparr>;
          c = c\<lparr>pc := jump_target (pc c) addr\<rparr>
      in stats_flush 2 c)"

definition decode_jal :: "w32 \<Rightarrow> ('m, 'a) CPU \<Rightarrow> error + ('m, 'a) CPU" where
  "decode_jal addr c =
     (let c = c\<lparr>writeDest := True\<rparr>;
          c = c\<lparr>destReg := int REG_RA\<rparr>;
          c = stats_registerDest (int REG_RA) c;
          c = c\<lparr>aluOp := ADD\<rparr>;
          c = c\<lparr>aluSrc1 := pc c\<rparr>;
          c = c\<lparr>aluSrc2 := regFile c ! REG_ZERO\<rparr>;
          c = c\<lparr>pc := jump_target (pc c) addr\<rparr>
      in stats_flush 2 c)"

definition decode_beq :: "w32 \<Rightarrow> w32 \<Rightarrow> w32 \<Rightarrow> ('m, 'a) CPU \<Rightarrow> error + ('m, 'a) CPU" where
  \<comment> \<open>the \<^verbatim>\<open>if\<close> has no braces: only the assignment to pc is under it\<close>
  "decode_beq rs rt simm c =
     (let c = c\<lparr>stats := countBranch (stats c)\<rparr>;
          c = stats_registerSrc (uint rs) c;
          c = stats_registerSrc (uint rt) c;
          c = (if regFile c ! unat rs = regFile c ! unat rt
               then c\<lparr>pc := pc c + push_bit 2 simm\<rparr> else c);
          c = c\<lparr>stats := countTaken (stats c)\<rparr>
      in stats_flush 2 c)"

definition decode_bne :: "w32 \<Rightarrow> w32 \<Rightarrow> w32 \<Rightarrow> ('m, 'a) CPU \<Rightarrow> error + ('m, 'a) CPU" where
  \<comment> \<open>as beq, with \<^verbatim>\<open>countBranch\<close> called on \<^verbatim>\<open>istats\<close>\<close>
  "decode_bne rs rt simm c =
     (let c = c\<lparr>istats := countBranch (istats c)\<rparr>;
          c = stats_registerSrc (uint rs) c;
          c = stats_registerSrc (uint rt) c;
          c = (if regFile c ! unat rs \<noteq> regFile c ! unat rt
               then c\<lparr>pc := pc c + push_bit 2 simm\<rparr> else c);
          c = c\<lparr>stats := countTaken (stats c)\<rparr>
      in stats_flush 2 c)"

definition decode_imm :: "aluop \<Rightarrow> w32 \<Rightarrow> w32 \<Rightarrow> w32 \<Rightarrow> ('m, 'a) CPU \<Rightarrow> ('m, 'a) CPU" where
  \<comment> \<open>addiu (ADD, simm) and andi (AND, uimm)\<close>
  "decode_imm opr rt rs imm c =
     (let c = c\<lparr>writeDest := True\<rparr>;
          c = c\<lparr>destReg := uint rt\<rparr>;
          c = stats_registerDest (uint rt) c;
          c = c\<lparr>aluOp := opr\<rparr>;
          c = c\<lparr>aluSrc1 := regFile c ! unat rs\<rparr>;
          c = stats_registerSrc (uint rs) c
      in c\<lparr>aluSrc2 := imm\<rparr>)"

definition decode_lui :: "w32 \<Rightarrow> w32 \<Rightarrow> ('m, 'a) CPU \<Rightarrow> ('m, 'a) CPU" where
  \<comment> \<open>the lui case makes no assignment to \<^verbatim>\<open>destReg\<close>\<close>
  "decode_lui rt simm c =
     (let c = c\<lparr>writeDest := True\<rparr>;
          c = stats_registerDest (uint rt) c;
          c = c\<lparr>aluOp := SHF_L\<rparr>;
          c = c\<lparr>aluSrc1 := simm\<rparr>
      in c\<lparr>aluSrc2 := 16\<rparr>)"

text \<open>
  The trap case. \<^verbatim>\<open>cin >> regFile[rt]\<close> stores the next number of the console input
  in register rt, with no test of rt; with no input left the register keeps its value.
  Codes 0 and 1 only write to cout.
\<close>

definition decode_trap :: "w32 \<Rightarrow> w32 \<Rightarrow> w32 \<Rightarrow> ('m, 'a) CPU \<Rightarrow> ('m, 'a) CPU" where
  "decode_trap rs rt addr c =
     (let code = addr AND 0xf in
      if code = 0x0 then c
      else if code = 0x1 then c
      else if code = 0x5 then
        (case cin c of
           [] \<Rightarrow> c
         | x # xs \<Rightarrow> c\<lparr>regFile := (regFile c)[unat rt := x], cin := xs\<rparr>)
      else if code = 0xa then c\<lparr>stop := True\<rparr>
      else (let c = c\<lparr>cerr := cerr c @ [UnimplementedTrap (pc c - 4)]\<rparr>
            in c\<lparr>stop := True\<rparr>))"

definition decode_lw :: "w32 \<Rightarrow> w32 \<Rightarrow> w32 \<Rightarrow> ('m, 'a) CPU \<Rightarrow> ('m, 'a) CPU" where
  "decode_lw rt rs simm c =
     (let c = c\<lparr>opIsLoad := True\<rparr>;
          c = c\<lparr>stats := countMemOp (stats c)\<rparr>;
          c = c\<lparr>writeDest := True\<rparr>;
          c = c\<lparr>destReg := uint rt\<rparr>;
          c = stats_registerDest (uint rt) c;
          c = c\<lparr>aluOp := ADD\<rparr>;
          c = c\<lparr>aluSrc1 := regFile c ! unat rs\<rparr>;
          c = stats_registerSrc (uint rs) c
      in c\<lparr>aluSrc2 := simm\<rparr>)"

definition decode_sw :: "w32 \<Rightarrow> w32 \<Rightarrow> w32 \<Rightarrow> ('m, 'a) CPU \<Rightarrow> ('m, 'a) CPU" where
  "decode_sw rt rs simm c =
     (let c = c\<lparr>opIsStore := True\<rparr>;
          c = c\<lparr>stats := countMemOp (stats c)\<rparr>;
          c = c\<lparr>storeData := regFile c ! unat rt\<rparr>;
          c = stats_registerSrc (uint rt) c;
          c = c\<lparr>aluOp := ADD\<rparr>;
          c = c\<lparr>aluSrc1 := regFile c ! unat rs\<rparr>;
          c = stats_registerSrc (uint rs) c
      in c\<lparr>aluSrc2 := simm\<rparr>)"

text \<open>The inner switch on funct, under opcode 0.\<close>

definition decode_special :: "('m, 'a) env \<Rightarrow> ('m, 'a) CPU \<Rightarrow> error + ('m, 'a) CPU" where
  "decode_special E c =
     (let i = instr c; funct = f_funct i in
      if funct = 0x00 then Inr (decode_shift SHF_L (f_rd i) (f_rs i) (f_shamt i) c)
      else if funct = 0x03 then Inr (decode_shift SHF_R (f_rd i) (f_rs i) (f_shamt i) c)
      else if funct = 0x08 then decode_jr (f_rs i) c
      else if funct = 0x10 then Inr (decode_mfhilo E (hi c) (f_rd i) c)
      else if funct = 0x12 then Inr (decode_mfhilo E (lo c) (f_rd i) c)
      else if funct = 0x18 then Inr (decode_multdiv E MUL (f_rs i) (f_rt i) c)
      else if funct = 0x1a then Inr (decode_multdiv E DIV (f_rs i) (f_rt i) c)
      else if funct = 0x21 then Inr (decode_addu (f_rd i) (f_rs i) (f_rt i) c)
      else if funct = 0x23 then Inr (decode_subu (f_rd i) (f_rs i) (f_rt i) c)
      else if funct = 0x2a then Inr (decode_slt (f_rd i) (f_rs i) (f_rt i) c)
      else Inr (decode_unimplemented c))"

text \<open>\<^verbatim>\<open>CPU::decode()\<close>: the signals reset at its start, then the switch on opcode.\<close>

definition decode_reset :: "('m, 'a) CPU \<Rightarrow> ('m, 'a) CPU" where
  "decode_reset c =
     c\<lparr>writeDest := False, opIsLoad := False, opIsStore := False, opIsMultDiv := False,
       aluOp := ADD, storeData := 0\<rparr>"

definition decode :: "('m, 'a) env \<Rightarrow> ('m, 'a) CPU \<Rightarrow> error + ('m, 'a) CPU" where
  "decode E c0 =
     (let c = decode_reset c0; i = instr c; opcode = f_opcode i in
      if opcode = 0x00 then decode_special E c
      else if opcode = 0x02 then decode_j (f_addr i) c
      else if opcode = 0x03 then decode_jal (f_addr i) c
      else if opcode = 0x04 then decode_beq (f_rs i) (f_rt i) (f_simm i) c
      else if opcode = 0x05 then decode_bne (f_rs i) (f_rt i) (f_simm i) c
      else if opcode = 0x09 then Inr (decode_imm ADD (f_rt i) (f_rs i) (f_simm i) c)
      else if opcode = 0x0c then Inr (decode_imm AND_alu (f_rt i) (f_rs i) (f_uimm i) c)
      else if opcode = 0x0f then Inr (decode_lui (f_rt i) (f_simm i) c)
      else if opcode = 0x1a then Inr (decode_trap (f_rs i) (f_rt i) (f_addr i) c)
      else if opcode = 0x23 then Inr (decode_lw (f_rt i) (f_rs i) (f_simm i) c)
      else if opcode = 0x2b then Inr (decode_sw (f_rt i) (f_rs i) (f_simm i) c)
      else Inr (decode_unimplemented c))"

text \<open>\<^verbatim>\<open>CPU::execute()\<close>, \<^verbatim>\<open>CPU::mem()\<close> and \<^verbatim>\<open>CPU::writeback()\<close>\<close>

definition execute :: "('m, 'a) env \<Rightarrow> ('m, 'a) CPU \<Rightarrow> ('m, 'a) CPU" where
  "execute E c =
     (case alu_op E (alu c) (aluOp c) (aluSrc1 c) (aluSrc2 c) of
        (r, a') \<Rightarrow> c\<lparr>aluOut := r, alu := a'\<rparr>)"

definition mem :: "('m, 'a) env \<Rightarrow> ('m, 'a) CPU \<Rightarrow> ('m, 'a) CPU" where
  "mem E c =
     (let c = (if opIsLoad c then c\<lparr>writeData := dMem_loadWord E (dMem c) (aluOut c)\<rparr>
               else c\<lparr>writeData := aluOut c\<rparr>)
      in if opIsStore c then c\<lparr>dMem := dMem_storeWord E (dMem c) (storeData c) (aluOut c)\<rparr>
         else c)"

definition writeback_hilo :: "('m, 'a) env \<Rightarrow> ('m, 'a) CPU \<Rightarrow> ('m, 'a) CPU" where
  "writeback_hilo E c =
     (if opIsMultDiv c
      then (let c = c\<lparr>hi := alu_getUpper E (alu c)\<rparr> in c\<lparr>lo := alu_getLower E (alu c)\<rparr>)
      else c)"

definition writeback :: "('m, 'a) env \<Rightarrow> ('m, 'a) CPU \<Rightarrow> error + ('m, 'a) CPU" where
  \<comment> \<open>a store at an index outside the NREGS registers stops with \<open>OutOfBounds\<close>\<close>
  "writeback E c =
     (if writeDest c \<and> destReg c > 0
      then (if destReg c < int (length (regFile c))
            then Inr (writeback_hilo E (c\<lparr>regFile := (regFile c)[nat (destReg c) := writeData c]\<rparr>))
            else Inl OutOfBounds)
      else Inr (writeback_hilo E c))"

text \<open>The body of the loop of \<^verbatim>\<open>CPU::run()\<close>, and the loop.\<close>

definition run_body :: "('m, 'a) env \<Rightarrow> ('m, 'a) CPU \<Rightarrow> error + ('m, 'a) CPU" where
  "run_body E c =
     (let c = c\<lparr>instructions := instructions c + 1\<rparr>;
          c = fetch E c
      in case decode E c of
           Inl e \<Rightarrow> Inl e
         | Inr c \<Rightarrow> writeback E (mem E (execute E c)))"

partial_function (option) run :: "('m, 'a) env \<Rightarrow> ('m, 'a) CPU \<Rightarrow> (error + ('m, 'a) CPU) option" where
  "run E c =
     (if stop c then Some (Inr c)
      else (case run_body E c of
              Inl e \<Rightarrow> Some (Inl e)
            | Inr c' \<Rightarrow> run E c'))"

declare run.simps [code]

subsection \<open>Floating-point arithmetic and its printing\<close>

text \<open>
  The report divides in floating point and prints the quotients in \<^verbatim>\<open>fixed\<close>
  notation. A finite floating-point value is modelled by the rational number it
  denotes; the infinities and not-a-number are values of their own. The sign of a zero
  and of a not-a-number is not kept, and the exponent has no bounds: the counters of
  the source are 32-bit integers, whose quotients are far from overflow and underflow.

  \<open>round_half_even\<close> is rounding to the nearest integer, a tie going to the even one:
  the rounding of IEEE arithmetic in its default mode. \<open>ilog2 a\<close> is the exponent e of
  a positive a, with 2^e \<le> a < 2^(e+1). \<open>fp_round p\<close> rounds to the nearest value
  with p significant bits: 53 for \<^verbatim>\<open>double\<close>, 24 for \<^verbatim>\<open>float\<close>.
\<close>

definition round_half_even :: "rat \<Rightarrow> int" where
  "round_half_even x =
     (let f = \<lfloor>x\<rfloor>; r = x - of_int f
      in if r < 1 / 2 then f else if 1 / 2 < r then f + 1
         else if even f then f else f + 1)"

definition ilog2 :: "rat \<Rightarrow> int" where
  "ilog2 a = (if 1 \<le> a then bitlen \<lfloor>a\<rfloor> - 1 else - bitlen (\<lceil>1 / a\<rceil> - 1))"

definition fp_round :: "nat \<Rightarrow> rat \<Rightarrow> rat" where
  "fp_round p x =
     (if x = 0 then 0
      else (let a = \<bar>x\<bar>; u = 2 powi (ilog2 a - int p + 1)
            in sgn x * of_int (round_half_even (a / u)) * u))"

datatype fval = Finite rat | PosInf | NegInf | NaN

text \<open>
  The conversion of an \<^verbatim>\<open>int\<close> to a floating-point type, the product and the
  quotient of two finite values, each rounded once. A quotient with divisor zero is an
  infinity with the sign of the dividend, and not-a-number when the dividend is zero.
\<close>

definition int_to_fp :: "nat \<Rightarrow> int \<Rightarrow> rat" where
  "int_to_fp p n = fp_round p (of_int n)"

definition fp_mul :: "nat \<Rightarrow> rat \<Rightarrow> rat \<Rightarrow> rat" where
  "fp_mul p x y = fp_round p (x * y)"

definition fp_div :: "nat \<Rightarrow> rat \<Rightarrow> rat \<Rightarrow> fval" where
  "fp_div p x d =
     (if d \<noteq> 0 then Finite (fp_round p (x / d))
      else if 0 < x then PosInf else if x < 0 then NegInf else NaN)"

text \<open>
  Printing with \<^verbatim>\<open>fixed\<close> and \<^verbatim>\<open>setprecision(k)\<close>: the value is rounded to k
  decimals, a tie going to the even digit (what \<^verbatim>\<open>printf\<close> of the GNU C library
  does with the exact binary value; a library that rounds ties in another way differs
  on exact ties only). A \<^verbatim>\<open>float\<close> is printed as the \<^verbatim>\<open>double\<close> of the same
  value. Infinities and not-a-number are printed by name.
\<close>

definition fixed_round :: "nat \<Rightarrow> rat \<Rightarrow> rat" where
  "fixed_round k x = of_int (round_half_even (x * 10 ^ k)) / 10 ^ k"

definition print_fixed :: "nat \<Rightarrow> fval \<Rightarrow> fval" where
  "print_fixed k v = (case v of Finite x \<Rightarrow> Finite (fixed_round k x) | _ \<Rightarrow> v)"

text \<open>
  \<^verbatim>\<open>CPU::printFinalStats()\<close>. The stream is set to \<^verbatim>\<open>fixed\<close> with precision 2 for
  the CPI, \<^verbatim>\<open>(float)stats.getCycles() / instructions\<close>, a quotient in single
  precision, and then to precision 1 for the three percentages, which are of the form
  \<^verbatim>\<open>100.0 * count / total\<close> in double precision. No quotient has a test of its
  divisor.
\<close>

record report =
  r_pc :: w32
  r_instructions :: int
  r_cycles :: int
  r_cpi :: fval
  r_bubbles :: int
  r_flushes :: int
  r_memops_pct :: fval
  r_branches_pct :: fval
  r_taken_pct :: fval

definition printFinalStats :: "('m, 'a) CPU \<Rightarrow> report" where
  "printFinalStats c =
     \<lparr> r_pc = pc c, r_instructions = instructions c, r_cycles = cycles (stats c),
       r_cpi = print_fixed 2
         (fp_div 24 (int_to_fp 24 (cycles (stats c))) (int_to_fp 24 (instructions c))),
       r_bubbles = bubbles (stats c), r_flushes = flushes (stats c),
       r_memops_pct = print_fixed 1
         (fp_div 53 (fp_mul 53 100 (int_to_fp 53 (memops (stats c))))
            (int_to_fp 53 (instructions c))),
       r_branches_pct = print_fixed 1
         (fp_div 53 (fp_mul 53 100 (int_to_fp 53 (branches (stats c))))
            (int_to_fp 53 (instructions c))),
       r_taken_pct = print_fixed 1
         (fp_div 53 (fp_mul 53 100 (int_to_fp 53 (taken (stats c))))
            (int_to_fp 53 (branches (stats c)))) \<rparr>"

section \<open>The tracker's operations as the specification words them\<close>

text \<open>
  One iteration of \<open>insertFlush\<close> in the specification's words: the total cycle
  count and the flush count go up by 1 and the slots move as in \<open>advanceClock\<close>.
\<close>

definition flush_step_spec :: "Stats \<Rightarrow> Stats" where
  "flush_step_spec s = (clock s)\<lparr>flushes := flushes s + 1\<rparr>"

fun insertFlush_spec :: "nat \<Rightarrow> Stats \<Rightarrow> Stats" where
  "insertFlush_spec 0 s = s"
| "insertFlush_spec (Suc n) s = insertFlush_spec n (flush_step_spec s)"

section \<open>Concrete machines and programs\<close>

text \<open>
  A tracker state with register 31 pending in two slots, EXE2 and MEM2, and register 1
  in the decode slot: the state in which \<open>addu $1, $31, $0\<close> reads register 31 after
  two \<open>jal\<close> instructions.
\<close>

definition pending_twice :: Stats where
  "pending_twice = \<lparr> cycles = 11, flushes = 4, bubbles = 0, memops = 0, branches = 0,
                     taken = 0, resultReg = [-1, -1, 1, -1, 31, -1, 31, -1] \<rparr>"

text \<open>
  A small arithmetic unit and a memory without contents stand in for the collaborators
  when a program is run. What is said below about the counters, the flags and the
  diagnostics of a concrete program does not depend on the values they return; the
  register contents do.
\<close>

definition test_alu :: "aluop \<Rightarrow> w32 \<Rightarrow> w32 \<Rightarrow> w32" where
  "test_alu opr x y =
     (case opr of ADD \<Rightarrow> x + y | AND_alu \<Rightarrow> x AND y | SHF_L \<Rightarrow> push_bit (unat y) x
      | _ \<Rightarrow> 0)"

definition test_env :: "(w32 \<Rightarrow> w32) \<Rightarrow> (unit, unit) env" where
  "test_env prog =
     \<lparr> iMem_loadWord = prog, dMem_loadWord = (\<lambda>m a. 0), dMem_storeWord = (\<lambda>m d a. m),
       dMem_getSize = (\<lambda>m. 0x1000), alu_op = (\<lambda>a opr x y. (test_alu opr x y, a)),
       alu_getUpper = (\<lambda>a. 0), alu_getLower = (\<lambda>a. 0), REG_HILO = 32 \<rparr>"

definition blank_CPU :: "(unit, unit) CPU" where
  "blank_CPU =
     \<lparr> pc = 0, instr = 0, regFile = [], hi = 0, lo = 0, instructions = 0, stop = False,
       writeDest = False, opIsLoad = False, opIsStore = False, opIsMultDiv = False,
       destReg = 0, aluOp = ADD, aluSrc1 = 0, aluSrc2 = 0, storeData = 0, aluOut = 0,
       writeData = 0, dMem = (), alu = (), stats = Stats_ctor, istats = Stats_ctor,
       cin = [], cerr = [] \<rparr>"

definition start_CPU :: "(w32 \<Rightarrow> w32) \<Rightarrow> (unit, unit) CPU" where
  "start_CPU prog = CPU_ctor (test_env prog) 0x400000 () blank_CPU"

text \<open>What is read off a result: the machine, and the machine a run ends in.\<close>

definition cpu_of :: "error + ('m, 'a) CPU \<Rightarrow> ('m, 'a) CPU option" where
  "cpu_of x = (case x of Inl e \<Rightarrow> None | Inr c \<Rightarrow> Some c)"

definition final_of :: "(error + ('m, 'a) CPU) option \<Rightarrow> ('m, 'a) CPU option" where
  "final_of x = (case x of None \<Rightarrow> None | Some y \<Rightarrow> cpu_of y)"

text \<open>\<open>beq $0, $28, 4\<close> at the start address (register 28 is not 0), then the stop trap.\<close>

definition prog_beq :: "w32 \<Rightarrow> w32" where
  "prog_beq a = (if a = 0x400000 then 0x101C0004 else 0x6800000a)"

text \<open>\<open>addiu $1, $0, 5\<close>, \<open>addiu $2, $0, 7\<close>, \<open>addiu $3, $0, 9\<close>, then the stop trap.\<close>

definition prog_adds :: "w32 \<Rightarrow> w32" where
  "prog_adds a =
     (if a = 0x400000 then 0x24010005 else if a = 0x400004 then 0x24020007
      else if a = 0x400008 then 0x24030009 else 0x6800000a)"

text \<open>The trap with request code 5 and rt = 0 (read a number into register 0).\<close>

definition prog_trap5 :: "w32 \<Rightarrow> w32" where
  "prog_trap5 a = (if a = 0x400000 then 0x68000005 else 0x6800000a)"

text \<open>An opcode that decode's switch has no case for, then \<open>addiu $1, $0, 5\<close>, then stop.\<close>

definition prog_badop :: "w32 \<Rightarrow> w32" where
  "prog_badop a =
     (if a = 0x400000 then 0xFC000000 else if a = 0x400004 then 0x24010005
      else 0x6800000a)"

text \<open>Opcode 0 with a funct that the inner switch has no case for (0x3f).\<close>

definition prog_badfunct :: "w32 \<Rightarrow> w32" where
  "prog_badfunct a = (if a = 0x400000 then 0x0000003f else 0x6800000a)"

text \<open>The trap with request code 3, which the trap switch has no case for.\<close>

definition prog_badtrap :: "w32 \<Rightarrow> w32" where
  "prog_badtrap a = (if a = 0x400000 then 0x68000003 else 0x6800000a)"

text \<open>\<open>lui $6, 0x1234\<close>, then stop.\<close>

definition prog_lui :: "w32 \<Rightarrow> w32" where
  "prog_lui a = (if a = 0x400000 then 0x3C061234 else 0x6800000a)"

text \<open>
  \<open>jal 0x400008\<close>, at 0x400008 \<open>jal 0x400010\<close>, at 0x400010 \<open>addu $1, $31, $0\<close>,
  then the stop trap.
\<close>

definition prog_two_jal :: "w32 \<Rightarrow> w32" where
  "prog_two_jal a =
     (if a = 0x400000 then 0x0C100002 else if a = 0x400008 then 0x0C100004
      else if a = 0x400010 then 0x03E00821 else 0x6800000a)"

text \<open>
  Three times \<open>beq $0, $0, 0\<close>, then \<open>bne $0, $0, 0\<close>, then the stop trap: the tracker
  \<open>stats\<close> ends with 3 branches and 4 taken.
\<close>

definition prog_branches :: "w32 \<Rightarrow> w32" where
  "prog_branches a =
     (if a = 0x400000 \<or> a = 0x400004 \<or> a = 0x400008 then 0x10000000
      else if a = 0x40000c then 0x14000000 else 0x6800000a)"

definition reg_of :: "nat \<Rightarrow> ('m, 'a) CPU \<Rightarrow> w32" where
  "reg_of n c = regFile c ! n"

section \<open>Instructions without a case in decode\<close>

text \<open>The values that the three switches of decode have a case for.\<close>

definition known_opcodes :: "w32 list" where
  "known_opcodes = [0x00, 0x02, 0x03, 0x04, 0x05, 0x09, 0x0c, 0x0f, 0x1a, 0x23, 0x2b]"

definition known_functs :: "w32 list" where
  "known_functs = [0x00, 0x03, 0x08, 0x10, 0x12, 0x18, 0x1a, 0x21, 0x23, 0x2a]"

definition known_traps :: "w32 list" where
  "known_traps = [0x0, 0x1, 0x5, 0xa]"

definition unknown_opcode :: "w32 \<Rightarrow> bool" where
  "unknown_opcode i = (f_opcode i \<notin> set known_opcodes)"

definition unknown_funct :: "w32 \<Rightarrow> bool" where
  "unknown_funct i = (f_opcode i = 0x00 \<and> f_funct i \<notin> set known_functs)"

definition unknown_trap :: "w32 \<Rightarrow> bool" where
  "unknown_trap i = (f_opcode i = 0x1a \<and> (f_addr i AND 0xf) \<notin> set known_traps)"

section \<open>Invariants\<close>

text \<open>
  The tracker has its 8 slots, and its cycle count is the start-up cost plus the
  bubbles and the flushes inserted so far.
\<close>

definition tracker_ok :: "Stats \<Rightarrow> bool" where
  "tracker_ok s = (length (resultReg s) = PIPESTAGES
                   \<and> cycles s = int PIPESTAGES - 1 + bubbles s + flushes s)"

text \<open>
  The instruction that stores in a register outside writeback: the trap with request
  code 5, here with rt = 0.
\<close>

definition reads_into_zero :: "w32 \<Rightarrow> bool" where
  "reads_into_zero i = (f_opcode i = 0x1a \<and> (f_addr i AND 0xf) = 0x5 \<and> f_rt i = 0)"

section \<open>Properties of the tracker\<close>

declare bubble_loop.simps [simp del] registerSrc_loop.simps [simp del]
  flush_loop.simps [simp del]

lemmas stage_defs = IF1_def IF2_def ID_def EXE1_def EXE2_def MEM1_def MEM2_def WB_def
  PIPESTAGES_def

lemma len8: "length xs = 8 \<Longrightarrow> \<exists>a b c d e f g h. xs = [a,b,c,d,e,f,g,h]"
  by (auto simp: length_Suc_conv eval_nat_numeral)

lemma shift_clock8: "shift_loop 7 0 [a,b,c,d,e,f,g,h] = [a,a,b,c,d,e,f,g]"
  by (simp add: eval_nat_numeral)

lemma shift_bubble8: "shift_loop 7 3 [a,b,c,d,e,f,g,h] = [a,b,c,d,d,e,f,g]"
  by (simp add: eval_nat_numeral)

lemma clock_mk:
  "clock \<lparr>cycles = cy, flushes = fl, bubbles = bu, memops = mo, branches = br, taken = tk,
          resultReg = [a,b,c,d,e,f,g,h]\<rparr>
   = \<lparr>cycles = cy + 1, flushes = fl, bubbles = bu, memops = mo, branches = br, taken = tk,
      resultReg = [-1,a,b,c,d,e,f,g]\<rparr>"
  by (simp add: clock_def Let_def shift_clock8 stage_defs)

lemma bubble_mk:
  "bubble \<lparr>cycles = cy, flushes = fl, bubbles = bu, memops = mo, branches = br, taken = tk,
          resultReg = [a,b,c,d,e,f,g,h]\<rparr>
   = \<lparr>cycles = cy + 1, flushes = fl, bubbles = bu + 1, memops = mo, branches = br, taken = tk,
      resultReg = [a,b,c,-1,d,e,f,g]\<rparr>"
  by (simp add: bubble_def Let_def shift_bubble8 stage_defs)

lemma Stats8_cases:
  assumes "length (resultReg s) = PIPESTAGES"
  obtains cy fl bu mo br tk a b c d e f g h where
    "s = \<lparr>cycles = cy, flushes = fl, bubbles = bu, memops = mo, branches = br, taken = tk,
          resultReg = [a,b,c,d,e,f,g,h]\<rparr>"
proof -
  from assms obtain a b c d e f g h where "resultReg s = [a,b,c,d,e,f,g,h]"
    using len8 [of "resultReg s"] by (auto simp: PIPESTAGES_def)
  then have "s = \<lparr>cycles = cycles s, flushes = flushes s, bubbles = bubbles s,
      memops = memops s, branches = branches s, taken = taken s,
      resultReg = [a,b,c,d,e,f,g,h]\<rparr>"
    by simp
  then show thesis by (rule that)
qed

lemma bubble_loop_unfold:
  "bubble_loop 3 s = bubble (bubble (bubble (bubble s)))"
  "bubble_loop 4 s = bubble (bubble (bubble s))"
  "bubble_loop 5 s = bubble (bubble s)"
  "bubble_loop 6 s = bubble s"
  by (simp_all add: bubble_loop.simps WB_def)

lemma bubble_pow_unfold:
  "(bubble ^^ 4) s = bubble (bubble (bubble (bubble s)))"
  "(bubble ^^ 3) s = bubble (bubble (bubble s))"
  "(bubble ^^ 2) s = bubble (bubble s)"
  "(bubble ^^ 1) s = bubble s"
  by (simp_all add: eval_nat_numeral)

lemma registerSrc_loop_unfold:
  "registerSrc_loop 3 r s =
     registerSrc_check 6 r (registerSrc_check 5 r (registerSrc_check 4 r (registerSrc_check 3 r s)))"
  by (simp add: registerSrc_loop.simps [of 3] registerSrc_loop.simps [of 4]
      registerSrc_loop.simps [of 5] registerSrc_loop.simps [of 6] registerSrc_loop.simps [of 7]
      WB_def)

text \<open>The inner loop started at position j inserts WB - j bubbles.\<close>

lemma bubble_loop_funpow: "j \<le> WB \<Longrightarrow> bubble_loop j s = (bubble ^^ (WB - j)) s"
proof (induction j s rule: bubble_loop.induct)
  case (1 j s)
  show ?case
  proof (cases "j < WB")
    case True
    then have "WB - j = Suc (WB - Suc j)" by simp
    with True 1 show ?thesis
      by (subst bubble_loop.simps) (simp add: funpow_swap1)
  next
    case False
    with 1 show ?thesis by (subst bubble_loop.simps) simp
  qed
qed

text \<open>
  C3, as amended. A read of a register r other than 0 that is pending (r is not the
  empty sentinel) inserts bubbles for the lowest position i of the slots EXE1 to MEM2
  that holds r, and only for it: exactly WB - i bubbles, each adding 1 to the bubble
  count and 1 to the cycle count. Slots further on that hold r as well are moved to
  writeback or past it by these insertions and cause none of their own.
\<close>

theorem registerSrc_first_pending:
  assumes len: "length (resultReg s) = PIPESTAGES"
    and r: "r \<noteq> 0" "r \<noteq> - 1"
    and i: "EXE1 \<le> i" "i < WB"
    and hit: "resultReg s ! i = r"
    and first: "\<forall>k. EXE1 \<le> k \<and> k < i \<longrightarrow> resultReg s ! k \<noteq> r"
  shows "registerSrc r s = (bubble ^^ (WB - i)) s
       \<and> bubbles (registerSrc r s) = bubbles s + int (WB - i)
       \<and> cycles (registerSrc r s) = cycles s + int (WB - i)"
proof -
  from len obtain cy fl bu mo br tk a b c d e f g h where
    s: "s = \<lparr>cycles = cy, flushes = fl, bubbles = bu, memops = mo, branches = br, taken = tk,
          resultReg = [a,b,c,d,e,f,g,h]\<rparr>"
    by (rule Stats8_cases)
  from i have "i = 3 \<or> i = 4 \<or> i = 5 \<or> i = 6"
    unfolding EXE1_def WB_def by arith
  then consider "i = 3" | "i = 4" | "i = 5" | "i = 6"
    by blast
  then show ?thesis
  proof cases
    case 1
    with hit r s show ?thesis
      by (simp add: registerSrc_def EXE1_def WB_def registerSrc_loop_unfold registerSrc_check_def
          bubble_loop_unfold bubble_pow_unfold bubble_mk)
  next
    case 2
    with first [rule_format, of 3] s have "d \<noteq> r" by (simp add: EXE1_def)
    with 2 hit r s show ?thesis
      by (simp add: registerSrc_def EXE1_def WB_def registerSrc_loop_unfold registerSrc_check_def
          bubble_loop_unfold bubble_pow_unfold bubble_mk)
  next
    case 3
    with first [rule_format, of 3] first [rule_format, of 4] s
    have "d \<noteq> r" "e \<noteq> r" by (simp_all add: EXE1_def)
    with 3 hit r s show ?thesis
      by (simp add: registerSrc_def EXE1_def WB_def registerSrc_loop_unfold registerSrc_check_def
          bubble_loop_unfold bubble_pow_unfold bubble_mk)
  next
    case 4
    with first [rule_format, of 3] first [rule_format, of 4] first [rule_format, of 5] s
    have "d \<noteq> r" "e \<noteq> r" "f \<noteq> r" by (simp_all add: EXE1_def)
    with 4 hit r s show ?thesis
      by (simp add: registerSrc_def EXE1_def WB_def registerSrc_loop_unfold registerSrc_check_def
          bubble_loop_unfold bubble_pow_unfold bubble_mk)
  qed
qed

text \<open>
  The theorem at \<open>pending_twice\<close> and register 31, whose lowest pending slot is EXE2:
  three bubbles.
\<close>

theorem registerSrc_first_pending_witness:
  "length (resultReg pending_twice) = PIPESTAGES \<and> resultReg pending_twice ! EXE2 = 31
   \<and> registerSrc 31 pending_twice = (bubble ^^ 3) pending_twice
   \<and> bubbles (registerSrc 31 pending_twice) = bubbles pending_twice + 3
   \<and> cycles (registerSrc 31 pending_twice) = cycles pending_twice + 3"
proof -
  have len: "length (resultReg pending_twice) = PIPESTAGES"
    by (simp add: pending_twice_def PIPESTAGES_def)
  have hit: "resultReg pending_twice ! EXE2 = 31"
    by (simp add: pending_twice_def EXE2_def)
  have first: "\<forall>k. EXE1 \<le> k \<and> k < EXE2 \<longrightarrow> resultReg pending_twice ! k \<noteq> 31"
  proof (intro allI impI)
    fix k assume "EXE1 \<le> k \<and> k < EXE2"
    then have "k = 3" by (simp add: EXE1_def EXE2_def)
    then show "resultReg pending_twice ! k \<noteq> 31" by (simp add: pending_twice_def)
  qed
  have r: "(31::int) \<noteq> 0" "(31::int) \<noteq> - 1" by simp_all
  have i: "EXE1 \<le> EXE2" "EXE2 < WB" by (simp_all add: stage_defs)
  have d: "WB - EXE2 = 3" "int 3 = 3" by (simp_all add: stage_defs)
  from registerSrc_first_pending [OF len r i hit first]
  have "registerSrc 31 pending_twice = (bubble ^^ 3) pending_twice
      \<and> bubbles (registerSrc 31 pending_twice) = bubbles pending_twice + 3
      \<and> cycles (registerSrc 31 pending_twice) = cycles pending_twice + 3"
    unfolding d .
  with len hit show ?thesis by blast
qed

text \<open>
  C3, as stated, fails where a second slot holds the register: in \<open>pending_twice\<close>
  the slot MEM2 holds a pending write to register 31, one stage before writeback, and
  the read inserts three bubbles, not one (and not the four that one bubble per stage
  for each of the two slots would make).
\<close>

theorem registerSrc_later_pending_counterexample:
  "EXE1 \<le> MEM2 \<and> MEM2 < WB \<and> resultReg pending_twice ! MEM2 = 31
   \<and> bubbles (registerSrc 31 pending_twice) = bubbles pending_twice + 3
   \<and> bubbles (registerSrc 31 pending_twice) \<noteq> bubbles pending_twice + int (WB - MEM2)
   \<and> bubbles (registerSrc 31 pending_twice)
       \<noteq> bubbles pending_twice + int (WB - EXE2) + int (WB - MEM2)"
  by (simp add: pending_twice_def registerSrc_def stage_defs registerSrc_loop_unfold
      registerSrc_check_def bubble_loop_unfold bubble_mk)

text \<open>A read of a register that no slot from EXE1 to MEM2 holds changes nothing.\<close>

lemma registerSrc_no_pending:
  assumes len: "length (resultReg s) = PIPESTAGES"
    and none: "\<forall>k. EXE1 \<le> k \<and> k < WB \<longrightarrow> resultReg s ! k \<noteq> r"
  shows "registerSrc r s = s"
proof -
  from len obtain cy fl bu mo br tk a b c d e f g h where
    s: "s = \<lparr>cycles = cy, flushes = fl, bubbles = bu, memops = mo, branches = br, taken = tk,
          resultReg = [a,b,c,d,e,f,g,h]\<rparr>"
    by (rule Stats8_cases)
  with none [rule_format, of 3] none [rule_format, of 4] none [rule_format, of 5]
    none [rule_format, of 6]
  have "d \<noteq> r" "e \<noteq> r" "f \<noteq> r" "g \<noteq> r" by (simp_all add: EXE1_def WB_def)
  with s show ?thesis
    by (simp add: registerSrc_def EXE1_def registerSrc_loop_unfold registerSrc_check_def)
qed

text \<open>How \<open>pending_twice\<close> arises from a fresh tracker.\<close>

lemma pending_twice_reachable:
  "flush 2 (registerDest 31 Stats_ctor)
     = Inr \<lparr>cycles = 9, flushes = 2, bubbles = 0, memops = 0, branches = 0, taken = 0,
            resultReg = [-1, -1, -1, -1, 31, -1, -1, -1]\<rparr>"
  "flush 2 (registerDest 31 \<lparr>cycles = 9, flushes = 2, bubbles = 0, memops = 0, branches = 0,
            taken = 0, resultReg = [-1, -1, -1, -1, 31, -1, -1, -1]\<rparr>)
     = Inr \<lparr>cycles = 11, flushes = 4, bubbles = 0, memops = 0, branches = 0, taken = 0,
            resultReg = [-1, -1, -1, -1, 31, -1, 31, -1]\<rparr>"
  "registerDest 1 \<lparr>cycles = 11, flushes = 4, bubbles = 0, memops = 0, branches = 0, taken = 0,
            resultReg = [-1, -1, -1, -1, 31, -1, 31, -1]\<rparr> = pending_twice"
  by code_simp+

text \<open>
  C9. A read of register 0 leaves the tracker as it is, whatever the slots hold, also
  when a slot holds a pending write to index 0: no bubble, no counter or slot changed.
\<close>

theorem registerSrc_zero_unchanged: "registerSrc 0 s = s"
  by (simp add: registerSrc_def)

text \<open>
  The test of r is what keeps the read of register 0 free: a slot can hold index 0
  (decode records the destination of \<open>sll $0, $0, 0\<close>), and the scan alone would
  insert bubbles for it.
\<close>

lemma registerSrc_loop_zero_pending:
  "bubbles (registerSrc_loop EXE1 0
      \<lparr>cycles = 7, flushes = 0, bubbles = 0, memops = 0, branches = 0, taken = 0,
       resultReg = [-1, -1, -1, 0, -1, -1, -1, -1]\<rparr>) = 4"
  by code_simp

text \<open>
  A flush of up to 8 iterations is what the specification says: each iteration acts as
  \<open>flush_step_spec\<close>. From the second iteration on the store goes to slot i, not to
  IF1, and finds the slots before it empty already.
\<close>

lemma flush_step_spec_mk:
  "flush_step_spec \<lparr>cycles = cy, flushes = fl, bubbles = bu, memops = mo, branches = br,
      taken = tk, resultReg = [a,b,c,d,e,f,g,h]\<rparr>
   = \<lparr>cycles = cy + 1, flushes = fl + 1, bubbles = bu, memops = mo, branches = br, taken = tk,
      resultReg = [-1,a,b,c,d,e,f,g]\<rparr>"
  by (simp add: flush_step_spec_def clock_mk)

lemma flush_body_mk:
  "i < 8 \<Longrightarrow>
   flush_body i \<lparr>cycles = cy, flushes = fl, bubbles = bu, memops = mo, branches = br,
      taken = tk, resultReg = [a,b,c,d,e,f,g,h]\<rparr>
   = Inr \<lparr>cycles = cy + 1, flushes = fl + 1, bubbles = bu, memops = mo, branches = br,
      taken = tk, resultReg = [a,a,b,c,d,e,f,g][i := -1]\<rparr>"
  by (simp add: flush_body_def Let_def shift_clock8 stage_defs)

lemma flush_upto_PIPESTAGES:
  assumes len: "length (resultReg s) = PIPESTAGES" and c: "0 \<le> count" "count \<le> int PIPESTAGES"
  shows "flush count s = Inr (insertFlush_spec (nat count) s)"
proof -
  from len obtain cy fl bu mo br tk a b c d e f g h where
    s: "s = \<lparr>cycles = cy, flushes = fl, bubbles = bu, memops = mo, branches = br, taken = tk,
          resultReg = [a,b,c,d,e,f,g,h]\<rparr>"
    by (rule Stats8_cases)
  from c have "count = 0 \<or> count = 1 \<or> count = 2 \<or> count = 3 \<or> count = 4 \<or> count = 5
      \<or> count = 6 \<or> count = 7 \<or> count = 8"
    unfolding PIPESTAGES_def by arith
  then show ?thesis
    unfolding s flush_def
    by (elim disjE)
      (simp_all add: flush_loop.simps flush_body_mk flush_step_spec_mk eval_nat_numeral)
qed

text \<open>
  C4 at the count 9, on a fresh tracker: the ninth iteration stores at index 8 of the
  8 slots, where the specification's iteration sets the slot IF1.
\<close>

theorem flush_nine_out_of_bounds:
  "flush 9 Stats_ctor = Inl OutOfBounds
   \<and> insertFlush_spec 9 Stats_ctor
       = \<lparr>cycles = 16, flushes = 9, bubbles = 0, memops = 0, branches = 0, taken = 0,
          resultReg = [-1, -1, -1, -1, -1, -1, -1, -1]\<rparr>"
  by code_simp

text \<open>What a read and a flush of 2 leave unchanged, and the invariant.\<close>

lemma registerSrc_frame:
  assumes "length (resultReg s) = PIPESTAGES"
  shows "length (resultReg (registerSrc r s)) = PIPESTAGES"
    and "flushes (registerSrc r s) = flushes s"
    and "memops (registerSrc r s) = memops s"
    and "branches (registerSrc r s) = branches s"
    and "taken (registerSrc r s) = taken s"
    and "cycles (registerSrc r s) - bubbles (registerSrc r s) = cycles s - bubbles s"
proof -
  from assms obtain cy fl bu mo br tk a b c d e f g h where
    s: "s = \<lparr>cycles = cy, flushes = fl, bubbles = bu, memops = mo, branches = br, taken = tk,
          resultReg = [a,b,c,d,e,f,g,h]\<rparr>"
    by (rule Stats8_cases)
  show "length (resultReg (registerSrc r s)) = PIPESTAGES"
    and "flushes (registerSrc r s) = flushes s"
    and "memops (registerSrc r s) = memops s"
    and "branches (registerSrc r s) = branches s"
    and "taken (registerSrc r s) = taken s"
    and "cycles (registerSrc r s) - bubbles (registerSrc r s) = cycles s - bubbles s"
    unfolding s
    by (simp_all add: registerSrc_def EXE1_def PIPESTAGES_def registerSrc_loop_unfold
        registerSrc_check_def bubble_loop_unfold bubble_mk)
qed

lemma flush_two:
  assumes "length (resultReg s) = PIPESTAGES"
  shows "\<exists>s'. flush 2 s = Inr s' \<and> length (resultReg s') = PIPESTAGES
      \<and> flushes s' = flushes s + 2 \<and> cycles s' = cycles s + 2 \<and> bubbles s' = bubbles s
      \<and> memops s' = memops s \<and> branches s' = branches s \<and> taken s' = taken s"
proof -
  from assms obtain cy fl bu mo br tk a b c d e f g h where
    s: "s = \<lparr>cycles = cy, flushes = fl, bubbles = bu, memops = mo, branches = br, taken = tk,
          resultReg = [a,b,c,d,e,f,g,h]\<rparr>"
    by (rule Stats8_cases)
  show ?thesis
    unfolding s flush_def
    by (simp add: flush_loop.simps flush_body_mk eval_nat_numeral PIPESTAGES_def)
qed

lemma registerDest_frame:
  "length (resultReg (registerDest r s)) = length (resultReg s)"
  "flushes (registerDest r s) = flushes s"
  "memops (registerDest r s) = memops s"
  "branches (registerDest r s) = branches s"
  "taken (registerDest r s) = taken s"
  "cycles (registerDest r s) = cycles s"
  "bubbles (registerDest r s) = bubbles s"
  by (simp_all add: registerDest_def)

lemma tracker_ok_registerSrc: "tracker_ok s \<Longrightarrow> tracker_ok (registerSrc r s)"
  using registerSrc_frame [of s r] by (simp add: tracker_ok_def)

lemma tracker_ok_registerDest: "tracker_ok s \<Longrightarrow> tracker_ok (registerDest r s)"
  by (simp add: tracker_ok_def registerDest_frame)

lemma tracker_ok_count:
  "tracker_ok s \<Longrightarrow> tracker_ok (countMemOp s)"
  "tracker_ok s \<Longrightarrow> tracker_ok (countBranch s)"
  "tracker_ok s \<Longrightarrow> tracker_ok (countTaken s)"
  by (simp_all add: tracker_ok_def countMemOp_def countBranch_def countTaken_def)

lemma tracker_ok_flush_two:
  "tracker_ok s \<Longrightarrow> \<exists>s'. flush 2 s = Inr s' \<and> tracker_ok s'"
  using flush_two [of s] by (auto simp: tracker_ok_def)

lemma tracker_ok_ctor: "tracker_ok Stats_ctor"
  by (simp add: tracker_ok_def Stats_ctor_def)

section \<open>Properties of the driver\<close>

lemma instr_decode_reset [simp]: "instr (decode_reset c) = instr c"
  by (simp add: decode_reset_def)

lemma instr_fetched:
  "instr (fetch E (c\<lparr>instructions := instructions c + 1\<rparr>)) = iMem_loadWord E (pc c)"
  by (simp add: fetch_def Let_def)

lemma stats_stats_ops [simp]:
  "stats (stats_registerSrc r c) = registerSrc r (stats c)"
  "stats (stats_registerDest r c) = registerDest r (stats c)"
  "stats (decode_reset c) = stats c"
  "stats (decode_unimplemented c) = stats c"
  by (simp_all add: stats_registerSrc_def stats_registerDest_def decode_reset_def
      decode_unimplemented_def)

lemma stats_pipeline [simp]:
  "stats (fetch E c) = stats c"
  "stats (execute E c) = stats c"
  "stats (mem E c) = stats c"
  by (simp_all add: fetch_def execute_def mem_def Let_def split: prod.splits)

subsection \<open>A read with two pending writes\<close>

text \<open>
  The driver reaches the tracker state \<open>pending_twice\<close>: after two \<open>jal\<close>
  instructions the read of register 31 by \<open>addu $1, $31, $0\<close> inserts 3 bubbles, and
  the run of the 4 instructions ends with 4 flush cycles and 7 + 3 + 4 cycles.
\<close>

lemma run_two_jal_bubbles:
  "map_option instructions (final_of (run (test_env prog_two_jal) (start_CPU prog_two_jal)))
     = Some 4
   \<and> map_option stats (final_of (run (test_env prog_two_jal) (start_CPU prog_two_jal)))
     = Some \<lparr>cycles = 14, flushes = 4, bubbles = 3, memops = 0, branches = 0, taken = 0,
              resultReg = [-1, -1, 1, -1, -1, -1, -1, 31]\<rparr>"
  by code_simp

subsection \<open>Branches and the flush penalty\<close>

text \<open>
  C1 at \<open>beq $0, $28, 4\<close> on a fresh machine, where register 0 holds 0 and register 28
  does not: the branch is not taken (the next pc is the following instruction, not the
  target 0x400014), and the flush count and the cycle count have both gone up by 2.
\<close>

theorem beq_not_taken_is_flushed:
  "f_opcode (prog_beq 0x400000) = 0x04
   \<and> f_rs (prog_beq 0x400000) = 0 \<and> f_rt (prog_beq 0x400000) = 28
   \<and> reg_of 0 (start_CPU prog_beq) \<noteq> reg_of 28 (start_CPU prog_beq)
   \<and> flushes (stats (start_CPU prog_beq)) = 0 \<and> cycles (stats (start_CPU prog_beq)) = 7
   \<and> map_option pc (cpu_of (run_body (test_env prog_beq) (start_CPU prog_beq)))
       = Some 0x400004
   \<and> map_option (flushes \<circ> stats) (cpu_of (run_body (test_env prog_beq) (start_CPU prog_beq)))
       = Some 2
   \<and> map_option (cycles \<circ> stats) (cpu_of (run_body (test_env prog_beq) (start_CPU prog_beq)))
       = Some 9"
  by code_simp

text \<open>
  C7 at the same instruction: the branch is not taken, and the taken-branch counter has
  gone from 0 to 1 (the branch counter too).
\<close>

theorem beq_not_taken_is_counted_taken:
  "reg_of 0 (start_CPU prog_beq) \<noteq> reg_of 28 (start_CPU prog_beq)
   \<and> taken (stats (start_CPU prog_beq)) = 0 \<and> branches (stats (start_CPU prog_beq)) = 0
   \<and> map_option pc (cpu_of (run_body (test_env prog_beq) (start_CPU prog_beq)))
       = Some 0x400004
   \<and> map_option (taken \<circ> stats) (cpu_of (run_body (test_env prog_beq) (start_CPU prog_beq)))
       = Some 1
   \<and> map_option (branches \<circ> stats) (cpu_of (run_body (test_env prog_beq) (start_CPU prog_beq)))
       = Some 1"
  by code_simp

text \<open>
  What the jumps and the branches do to the counters in general: a jump adds 2 flush
  cycles; a branch adds 2 flush cycles and counts as taken, whether its condition
  holds or not.
\<close>

lemma stats_flush_two:
  assumes "length (resultReg (stats c)) = PIPESTAGES"
  shows "\<exists>s'. stats_flush 2 c = Inr (c\<lparr>stats := s'\<rparr>)
      \<and> flushes s' = flushes (stats c) + 2 \<and> cycles s' = cycles (stats c) + 2
      \<and> bubbles s' = bubbles (stats c) \<and> branches s' = branches (stats c)
      \<and> taken s' = taken (stats c)"
  using flush_two [OF assms] by (auto simp: stats_flush_def)

lemma stats_flush_jump:
  assumes "length (resultReg (stats d)) = PIPESTAGES" and "flushes (stats d) = fl"
    and "cycles (stats d) = cy"
  shows "\<exists>c'. stats_flush 2 d = Inr c' \<and> flushes (stats c') = fl + 2 \<and> cycles (stats c') = cy + 2"
  using stats_flush_two [of d] assms by auto

lemma decode_jump_effect:
  assumes "length (resultReg (stats c)) = PIPESTAGES"
  shows "\<exists>c'. decode_j addr c = Inr c' \<and> flushes (stats c') = flushes (stats c) + 2
      \<and> cycles (stats c') = cycles (stats c) + 2"
    and "\<exists>c'. decode_jal addr c = Inr c' \<and> flushes (stats c') = flushes (stats c) + 2
      \<and> cycles (stats c') = cycles (stats c) + 2"
    and "\<exists>c'. decode_jr rs c = Inr c' \<and> flushes (stats c') = flushes (stats c) + 2
      \<and> cycles (stats c') = cycles (stats c) + 2"
  unfolding decode_j_def decode_jal_def decode_jr_def Let_def
  by (rule stats_flush_jump; simp add: assms registerDest_frame)+

lemma jump_flushes_two:
  assumes len: "length (resultReg (stats c)) = PIPESTAGES"
    and j: "f_opcode (instr c) = 0x02 \<or> f_opcode (instr c) = 0x03
            \<or> (f_opcode (instr c) = 0x00 \<and> f_funct (instr c) = 0x08)"
  shows "\<exists>c'. decode E c = Inr c' \<and> flushes (stats c') = flushes (stats c) + 2
      \<and> cycles (stats c') = cycles (stats c) + 2"
proof -
  from len have "length (resultReg (stats (decode_reset c))) = PIPESTAGES" by simp
  from decode_jump_effect [OF this] j show ?thesis
    by (elim disjE conjE) (simp_all add: decode_def decode_special_def Let_def)
qed

lemma stats_flush_branch:
  assumes "length (resultReg (stats d)) = PIPESTAGES" and "flushes (stats d) = fl"
    and "taken (stats d) = tk"
  shows "\<exists>c'. stats_flush 2 d = Inr c' \<and> flushes (stats c') = fl + 2 \<and> taken (stats c') = tk"
  using stats_flush_two [of d] assms by auto

lemma decode_beq_effect:
  assumes "length (resultReg (stats c)) = PIPESTAGES"
  shows "\<exists>c'. decode_beq rs rt simm c = Inr c' \<and> flushes (stats c') = flushes (stats c) + 2
      \<and> taken (stats c') = taken (stats c) + 1"
  unfolding decode_beq_def Let_def
  by (rule stats_flush_branch)
    (simp_all add: assms registerSrc_frame countBranch_def countTaken_def)

lemma decode_bne_effect:
  assumes "length (resultReg (stats c)) = PIPESTAGES"
  shows "\<exists>c'. decode_bne rs rt simm c = Inr c' \<and> flushes (stats c') = flushes (stats c) + 2
      \<and> taken (stats c') = taken (stats c) + 1"
  unfolding decode_bne_def Let_def
  by (rule stats_flush_branch)
    (simp_all add: assms registerSrc_frame countBranch_def countTaken_def)

lemma branch_always_flushes:
  assumes len: "length (resultReg (stats c)) = PIPESTAGES"
    and b: "f_opcode (instr c) = 0x04 \<or> f_opcode (instr c) = 0x05"
  shows "\<exists>c'. decode E c = Inr c' \<and> flushes (stats c') = flushes (stats c) + 2
      \<and> taken (stats c') = taken (stats c) + 1"
proof -
  from len have "length (resultReg (stats (decode_reset c))) = PIPESTAGES" by simp
  from decode_beq_effect [OF this] decode_bne_effect [OF this] b show ?thesis
    by (elim disjE) (simp_all add: decode_def Let_def)
qed

subsection \<open>The cycle count of a run\<close>

text \<open>
  C2 at three independent \<open>addiu\<close> instructions followed by the stop trap: the run
  ends after 4 instructions with the registers written, no bubble and no flush, and a
  cycle count of 7, the start-up cost alone: the loop of run makes no call of clock.
\<close>

theorem run_adds_cycles:
  "map_option instructions (final_of (run (test_env prog_adds) (start_CPU prog_adds))) = Some 4
   \<and> map_option (reg_of 1) (final_of (run (test_env prog_adds) (start_CPU prog_adds))) = Some 5
   \<and> map_option (reg_of 2) (final_of (run (test_env prog_adds) (start_CPU prog_adds))) = Some 7
   \<and> map_option (reg_of 3) (final_of (run (test_env prog_adds) (start_CPU prog_adds))) = Some 9
   \<and> map_option (bubbles \<circ> stats) (final_of (run (test_env prog_adds) (start_CPU prog_adds)))
       = Some 0
   \<and> map_option (flushes \<circ> stats) (final_of (run (test_env prog_adds) (start_CPU prog_adds)))
       = Some 0
   \<and> map_option (cycles \<circ> stats) (final_of (run (test_env prog_adds) (start_CPU prog_adds)))
       = Some 7"
  by code_simp

text \<open>
  No instruction advances the clock: every step keeps the invariant, so a run that
  ends has a cycle count of 7 plus its bubbles and flushes, however many instructions
  it retired.
\<close>

lemma stats_flush_ok:
  "tracker_ok (stats c) \<Longrightarrow> \<exists>c'. stats_flush 2 c = Inr c' \<and> tracker_ok (stats c')"
  using tracker_ok_flush_two [of "stats c"] by (auto simp: stats_flush_def)

lemmas tracker_ok_ops = tracker_ok_registerSrc tracker_ok_registerDest tracker_ok_count

lemma decode_cases_ok:
  assumes "tracker_ok (stats c)"
  shows "tracker_ok (stats (decode_shift opr rd rs shamt c))"
    and "tracker_ok (stats (decode_mfhilo E src rd c))"
    and "tracker_ok (stats (decode_multdiv E opr rs rt c))"
    and "tracker_ok (stats (decode_addu rd rs rt c))"
    and "tracker_ok (stats (decode_subu rd rs rt c))"
    and "tracker_ok (stats (decode_slt rd rs rt c))"
    and "tracker_ok (stats (decode_imm opr rt rs imm c))"
    and "tracker_ok (stats (decode_lui rt simm c))"
    and "tracker_ok (stats (decode_trap rs rt addr c))"
    and "tracker_ok (stats (decode_lw rt rs simm c))"
    and "tracker_ok (stats (decode_sw rt rs simm c))"
  using assms
  by (simp_all add: decode_shift_def decode_mfhilo_def decode_multdiv_def decode_addu_def
      decode_subu_def decode_slt_def decode_imm_def decode_lui_def decode_trap_def
      decode_lw_def decode_sw_def Let_def tracker_ok_ops split: list.splits)

lemma decode_flush_cases_ok:
  assumes "tracker_ok (stats c)"
  shows "\<exists>c'. decode_jr rs c = Inr c' \<and> tracker_ok (stats c')"
    and "\<exists>c'. decode_j addr c = Inr c' \<and> tracker_ok (stats c')"
    and "\<exists>c'. decode_jal addr c = Inr c' \<and> tracker_ok (stats c')"
    and "\<exists>c'. decode_beq rs rt simm c = Inr c' \<and> tracker_ok (stats c')"
    and "\<exists>c'. decode_bne rs rt simm c = Inr c' \<and> tracker_ok (stats c')"
  unfolding decode_jr_def decode_j_def decode_jal_def decode_beq_def decode_bne_def Let_def
  using assms by (auto intro!: stats_flush_ok simp: tracker_ok_ops)

lemma decode_ok:
  assumes "tracker_ok (stats c)"
  shows "\<exists>c'. decode E c = Inr c' \<and> tracker_ok (stats c')"
  using assms
  by (simp add: decode_def decode_special_def Let_def decode_cases_ok decode_flush_cases_ok)

lemma stats_writeback: "writeback E c = Inr c' \<Longrightarrow> stats c' = stats c"
  by (auto simp: writeback_def writeback_hilo_def Let_def split: if_splits)

lemma run_body_ok:
  assumes ok: "tracker_ok (stats c)" and r: "run_body E c = Inr c'"
  shows "tracker_ok (stats c')"
proof -
  let ?c1 = "fetch E (c\<lparr>instructions := instructions c + 1\<rparr>)"
  from ok have "tracker_ok (stats ?c1)" by simp
  then obtain c2 where d: "decode E ?c1 = Inr c2" and ok2: "tracker_ok (stats c2)"
    using decode_ok by blast
  from r d have "writeback E (mem E (execute E c2)) = Inr c'"
    by (simp add: run_body_def Let_def)
  then have "stats c' = stats c2"
    using stats_writeback by fastforce
  with ok2 show ?thesis by simp
qed

lemma run_ok:
  assumes r: "run (E :: ('m, 'a) env) c = Some (Inr c')" and ok: "tracker_ok (stats c)"
  shows "tracker_ok (stats c')"
proof -
  define P :: "('m, 'a) env \<Rightarrow> ('m, 'a) CPU \<Rightarrow> error + ('m, 'a) CPU \<Rightarrow> bool"
    where "P = (\<lambda>E c y. \<forall>c'. y = Inr c' \<longrightarrow> tracker_ok (stats c) \<longrightarrow> tracker_ok (stats c'))"
  have step: "P E c y"
    if IH: "\<And>E c y. f E c = Some y \<Longrightarrow> P E c y"
      and eq: "(if stop c then Some (Inr c)
                else case run_body E c of Inl e \<Rightarrow> Some (Inl e) | Inr c' \<Rightarrow> f E c') = Some y"
    for f and E :: "('m, 'a) env" and c y
  proof (cases "stop c")
    case True
    with eq show ?thesis by (auto simp: P_def)
  next
    case False
    show ?thesis
    proof (cases "run_body E c")
      case (Inl e)
      with False eq show ?thesis by (auto simp: P_def)
    next
      case (Inr c1)
      with False eq have "f E c1 = Some y" by simp
      from IH [OF this] run_body_ok [OF _ Inr] show ?thesis
        unfolding P_def by blast
    qed
  qed
  have "P E c (Inr c')"
    by (rule run.raw_induct [where P = P, OF step r])
  with ok show ?thesis by (simp add: P_def)
qed

lemma run_cycles:
  assumes "run E (CPU_ctor E pc0 dm c0) = Some (Inr c')"
  shows "cycles (stats c') = 7 + bubbles (stats c') + flushes (stats c')"
proof -
  have "tracker_ok (stats (CPU_ctor E pc0 dm c0))"
    by (simp add: CPU_ctor_def tracker_ok_ctor)
  from run_ok [OF assms this] show ?thesis
    by (simp add: tracker_ok_def PIPESTAGES_def)
qed

subsection \<open>Register 0\<close>

text \<open>
  C8 at the trap with request code 5 and rt = 0, with the number 42 on the console:
  register 0 holds 0 before the instruction and 42 after it.
\<close>

theorem trap_read_into_register_zero:
  "f_opcode (prog_trap5 0x400000) = 0x1a \<and> f_addr (prog_trap5 0x400000) AND 0xf = 0x5
   \<and> f_rt (prog_trap5 0x400000) = 0
   \<and> reg_of 0 ((start_CPU prog_trap5)\<lparr>cin := [42]\<rparr>) = 0
   \<and> map_option (reg_of 0)
        (cpu_of (run_body (test_env prog_trap5) ((start_CPU prog_trap5)\<lparr>cin := [42]\<rparr>)))
       = Some 42"
  by code_simp

text \<open>
  Every other instruction leaves register 0 as it was: writeback skips the store when
  the destination is 0, and the remaining cases of decode do not store in a register.
\<close>

lemma regFile_stats_ops [simp]:
  "regFile (stats_registerSrc r c) = regFile c"
  "regFile (stats_registerDest r c) = regFile c"
  "regFile (decode_reset c) = regFile c"
  "regFile (decode_unimplemented c) = regFile c"
  "regFile (fetch E c) = regFile c"
  "regFile (execute E c) = regFile c"
  "regFile (mem E c) = regFile c"
  by (simp_all add: stats_registerSrc_def stats_registerDest_def decode_reset_def
      decode_unimplemented_def fetch_def execute_def mem_def Let_def split: prod.splits)

lemma regFile_stats_flush: "stats_flush n c = Inr c' \<Longrightarrow> regFile c' = regFile c"
  by (auto simp: stats_flush_def split: sum.splits)

lemma regFile_decode_cases:
  "regFile (decode_shift opr rd rs shamt c) = regFile c"
  "regFile (decode_mfhilo E src rd c) = regFile c"
  "regFile (decode_multdiv E opr rs rt c) = regFile c"
  "regFile (decode_addu rd rs rt c) = regFile c"
  "regFile (decode_subu rd rs rt c) = regFile c"
  "regFile (decode_slt rd rs rt c) = regFile c"
  "regFile (decode_imm opr rt rs imm c) = regFile c"
  "regFile (decode_lui rt simm c) = regFile c"
  "regFile (decode_lw rt rs simm c) = regFile c"
  "regFile (decode_sw rt rs simm c) = regFile c"
  by (simp_all add: decode_shift_def decode_mfhilo_def decode_multdiv_def decode_addu_def
      decode_subu_def decode_slt_def decode_imm_def decode_lui_def
      decode_lw_def decode_sw_def Let_def)

lemma regFile_decode_flush_cases:
  "decode_jr rs c = Inr c' \<Longrightarrow> regFile c' = regFile c"
  "decode_j addr c = Inr c' \<Longrightarrow> regFile c' = regFile c"
  "decode_jal addr c = Inr c' \<Longrightarrow> regFile c' = regFile c"
  "decode_beq rs rt simm c = Inr c' \<Longrightarrow> regFile c' = regFile c"
  "decode_bne rs rt simm c = Inr c' \<Longrightarrow> regFile c' = regFile c"
  unfolding decode_jr_def decode_j_def decode_jal_def decode_beq_def decode_bne_def Let_def
  by (auto dest!: regFile_stats_flush)

lemma reg0_decode_trap:
  assumes "\<not> ((addr AND 0xf) = 0x5 \<and> rt = 0)" and "unat rt < 32"
  shows "regFile (decode_trap rs rt addr c) ! 0 = regFile c ! 0"
proof -
  have "unat rt \<noteq> 0" if "rt \<noteq> 0" using that by (simp add: unat_eq_0)
  with assms show ?thesis
    by (auto simp: decode_trap_def Let_def split: list.splits)
qed

lemma f_rt_bound: "unat (f_rt i) < 32"
proof -
  have "f_rt i \<le> 0x1f" unfolding f_rt_def by (rule word_and_le1)
  then have "unat (f_rt i) \<le> unat (0x1f :: w32)" by (simp add: word_le_nat_alt)
  then show ?thesis by simp
qed

lemma reg0_decode:
  assumes "decode E c = Inr c'" and "\<not> reads_into_zero (instr c)"
  shows "regFile c' ! 0 = regFile c ! 0"
  using assms reg0_decode_trap [of "f_addr (instr c)" "f_rt (instr c)" "f_rs (instr c)" "decode_reset c"]
    f_rt_bound [of "instr c"]
  by (auto simp: decode_def decode_special_def Let_def regFile_decode_cases reads_into_zero_def
      dest!: regFile_decode_flush_cases split: if_splits)

lemma reg0_writeback: "writeback E c = Inr c' \<Longrightarrow> regFile c' ! 0 = regFile c ! 0"
  by (auto simp: writeback_def writeback_hilo_def Let_def split: if_splits)

lemma reg0_run_body:
  assumes r: "run_body E c = Inr c'" and n: "\<not> reads_into_zero (iMem_loadWord E (pc c))"
  shows "regFile c' ! 0 = regFile c ! 0"
proof -
  let ?c1 = "fetch E (c\<lparr>instructions := instructions c + 1\<rparr>)"
  from r obtain c2 where d: "decode E ?c1 = Inr c2"
    and w: "writeback E (mem E (execute E c2)) = Inr c'"
    by (auto simp: run_body_def Let_def split: sum.splits)
  from n have "\<not> reads_into_zero (instr ?c1)" by (simp add: instr_fetched)
  from reg0_decode [OF d this] reg0_writeback [OF w] show ?thesis by simp
qed

subsection \<open>Instructions without a case\<close>

lemma decode_unknown_opcode:
  "unknown_opcode (instr c) \<Longrightarrow> decode E c = Inr (decode_unimplemented (decode_reset c))"
  by (simp add: unknown_opcode_def known_opcodes_def decode_def Let_def)

lemma decode_unknown_funct:
  "unknown_funct (instr c) \<Longrightarrow> decode E c = Inr (decode_unimplemented (decode_reset c))"
  by (simp add: unknown_funct_def known_functs_def decode_def decode_special_def Let_def)

lemma decode_unknown_trap:
  "unknown_trap (instr c) \<Longrightarrow>
   decode E c = Inr ((decode_reset c)\<lparr>cerr := cerr c @ [UnimplementedTrap (pc c - 4)],
                                         stop := True\<rparr>)"
  by (simp add: unknown_trap_def known_traps_def decode_def decode_trap_def Let_def
      decode_reset_def)

lemma run_body_unimplemented:
  assumes "unknown_funct (iMem_loadWord E (pc c)) \<or> unknown_opcode (iMem_loadWord E (pc c))"
  shows "\<exists>c'. run_body E c = Inr c' \<and> stop c' = stop c
      \<and> cerr c' = cerr c @ [UnimplementedInstruction (pc c)]
      \<and> regFile c' = regFile c \<and> hi c' = hi c \<and> lo c' = lo c \<and> dMem c' = dMem c
      \<and> stats c' = stats c"
proof -
  let ?c1 = "fetch E (c\<lparr>instructions := instructions c + 1\<rparr>)"
  from assms have d: "decode E ?c1 = Inr (decode_unimplemented (decode_reset ?c1))"
    using decode_unknown_opcode [of ?c1 E] decode_unknown_funct [of ?c1 E]
    unfolding instr_fetched by blast
  show ?thesis
    unfolding run_body_def Let_def d
    by (simp add: fetch_def decode_reset_def decode_unimplemented_def execute_def mem_def
        writeback_def writeback_hilo_def Let_def split: prod.splits)
qed

lemma run_body_unknown_trap:
  assumes "unknown_trap (iMem_loadWord E (pc c))"
  shows "\<exists>c'. run_body E c = Inr c' \<and> stop c'
      \<and> cerr c' = cerr c @ [UnimplementedTrap (pc c)]"
proof -
  let ?c1 = "fetch E (c\<lparr>instructions := instructions c + 1\<rparr>)"
  from assms
  have d: "decode E ?c1
      = Inr ((decode_reset ?c1)\<lparr>cerr := cerr ?c1 @ [UnimplementedTrap (pc ?c1 - 4)],
                                 stop := True\<rparr>)"
    using decode_unknown_trap [of ?c1 E]
    unfolding instr_fetched by blast
  show ?thesis
    unfolding run_body_def Let_def d
    by (simp add: fetch_def decode_reset_def execute_def mem_def
        writeback_def writeback_hilo_def Let_def split: prod.splits)
qed

text \<open>
  C5, as stated, fails at an opcode without a case (0x3f): the instruction leaves the
  stop flag clear and writes the diagnostic, and the run goes on to execute the
  \<open>addiu\<close> after it and the stop trap, three instructions in all.
\<close>

theorem unknown_opcode_counterexample:
  "f_opcode (prog_badop 0x400000) = 0x3f
   \<and> map_option stop (cpu_of (run_body (test_env prog_badop) (start_CPU prog_badop)))
       = Some False
   \<and> map_option cerr (cpu_of (run_body (test_env prog_badop) (start_CPU prog_badop)))
       = Some [UnimplementedInstruction 0x400000]
   \<and> map_option instructions (final_of (run (test_env prog_badop) (start_CPU prog_badop)))
       = Some 3
   \<and> map_option (reg_of 1) (final_of (run (test_env prog_badop) (start_CPU prog_badop)))
       = Some 5"
  by code_simp

text \<open>
  C5, as amended. An instruction whose funct under opcode 0 has no case, and likewise
  an instruction whose opcode has no case, is reported on cerr and execution continues:
  the stop flag, the registers, hi and lo, the data memory and the tracker are as
  before. An instruction that is a trap with a request code without a case is reported
  and sets the stop flag, which ends the run.
\<close>

theorem unimplemented_handling:
  "(unknown_funct (iMem_loadWord E (pc c)) \<or> unknown_opcode (iMem_loadWord E (pc c)) \<longrightarrow>
      (\<exists>c'. run_body E c = Inr c' \<and> stop c' = stop c
         \<and> cerr c' = cerr c @ [UnimplementedInstruction (pc c)]
         \<and> regFile c' = regFile c \<and> hi c' = hi c \<and> lo c' = lo c \<and> dMem c' = dMem c
         \<and> stats c' = stats c))
   \<and> (unknown_trap (iMem_loadWord E (pc c)) \<longrightarrow>
      (\<exists>c'. run_body E c = Inr c' \<and> stop c'
         \<and> cerr c' = cerr c @ [UnimplementedTrap (pc c)]))"
  using run_body_unimplemented [of E c] run_body_unknown_trap [of E c] by blast

theorem unimplemented_handling_witness:
  "unknown_funct (prog_badfunct 0x400000)
   \<and> map_option stop (cpu_of (run_body (test_env prog_badfunct) (start_CPU prog_badfunct)))
       = Some False
   \<and> unknown_opcode (prog_badop 0x400000)
   \<and> map_option stop (cpu_of (run_body (test_env prog_badop) (start_CPU prog_badop)))
       = Some False
   \<and> unknown_trap (prog_badtrap 0x400000)
   \<and> map_option stop (cpu_of (run_body (test_env prog_badtrap) (start_CPU prog_badtrap)))
       = Some True"
proof -
  have f: "unknown_funct (prog_badfunct 0x400000)" by code_simp
  have f': "unknown_funct (iMem_loadWord (test_env prog_badfunct) (pc (start_CPU prog_badfunct)))"
    by code_simp
  have fs: "stop (start_CPU prog_badfunct) = False" by code_simp
  from unimplemented_handling [of "test_env prog_badfunct" "start_CPU prog_badfunct"] f'
  obtain c1 where "run_body (test_env prog_badfunct) (start_CPU prog_badfunct) = Inr c1"
    and "stop c1 = stop (start_CPU prog_badfunct)"
    by blast
  with fs have w1: "map_option stop
      (cpu_of (run_body (test_env prog_badfunct) (start_CPU prog_badfunct))) = Some False"
    by (simp add: cpu_of_def)
  have p: "unknown_opcode (prog_badop 0x400000)" by code_simp
  have p': "unknown_opcode (iMem_loadWord (test_env prog_badop) (pc (start_CPU prog_badop)))"
    by code_simp
  have ps: "stop (start_CPU prog_badop) = False" by code_simp
  from unimplemented_handling [of "test_env prog_badop" "start_CPU prog_badop"] p'
  obtain c2 where "run_body (test_env prog_badop) (start_CPU prog_badop) = Inr c2"
    and "stop c2 = stop (start_CPU prog_badop)"
    by blast
  with ps have w2: "map_option stop
      (cpu_of (run_body (test_env prog_badop) (start_CPU prog_badop))) = Some False"
    by (simp add: cpu_of_def)
  have t: "unknown_trap (prog_badtrap 0x400000)" by code_simp
  have t': "unknown_trap (iMem_loadWord (test_env prog_badtrap) (pc (start_CPU prog_badtrap)))"
    by code_simp
  from unimplemented_handling [of "test_env prog_badtrap" "start_CPU prog_badtrap"] t'
  obtain c3 where "run_body (test_env prog_badtrap) (start_CPU prog_badtrap) = Inr c3"
    and "stop c3"
    by blast
  then have w3: "map_option stop
      (cpu_of (run_body (test_env prog_badtrap) (start_CPU prog_badtrap))) = Some True"
    by (simp add: cpu_of_def)
  from f w1 p w2 t w3 show ?thesis by blast
qed

subsection \<open>The final report\<close>

text \<open>
  The rounding functions: the nearest integer is at most a half away, the exponent
  brackets its argument, the rounding to p significant bits has a relative error of at
  most 2^-p, keeps the sign, and leaves an integer below 2^p as it is; the printed
  value is at most half a unit of the last decimal away.
\<close>

lemma round_half_even_error: "\<bar>of_int (round_half_even x) - x\<bar> \<le> 1 / 2"
proof -
  have "of_int \<lfloor>x\<rfloor> \<le> x" "x < of_int \<lfloor>x\<rfloor> + 1"
    by linarith+
  then show ?thesis
    by (auto simp: round_half_even_def Let_def)
qed

lemma round_half_even_of_int [simp]: "round_half_even (of_int n) = n"
  by (simp add: round_half_even_def)

lemma ilog2_bounds:
  assumes "0 < a"
  shows "2 powi (ilog2 a) \<le> a" and "a < 2 powi (ilog2 a + 1)"
proof -
  have "2 powi (ilog2 a) \<le> a \<and> a < 2 powi (ilog2 a + 1)"
  proof (cases "1 \<le> a")
    case True
    define n where "n = \<lfloor>a\<rfloor>"
    from True have n: "0 < n" by (simp add: n_def)
    from bitlen_bounds [OF n]
    have lo: "2 ^ nat (bitlen n - 1) \<le> n" and hi: "n < 2 ^ nat (bitlen n)" by simp_all
    from n have b: "1 \<le> bitlen n"
      using bitlen_eq_zero_iff [of n] bitlen_nonneg [of n] by linarith
    have e: "ilog2 a = bitlen n - 1" using True by (simp add: ilog2_def n_def)
    have "(2::rat) powi (bitlen n - 1) = of_int (2 ^ nat (bitlen n - 1))"
      using b by (simp add: power_int_def)
    also have "\<dots> \<le> of_int n" using lo by (simp only: of_int_le_iff)
    also have "\<dots> \<le> a" by (simp add: n_def)
    finally have 1: "2 powi (ilog2 a) \<le> a" by (simp add: e)
    have "a < of_int (n + 1)" unfolding n_def by linarith
    also have "\<dots> \<le> of_int (2 ^ nat (bitlen n))"
      using hi by (simp only: of_int_le_iff add1_zle_eq)
    also have "\<dots> = (2::rat) powi (bitlen n)"
      using b by (simp add: power_int_def)
    finally have 2: "a < 2 powi (ilog2 a + 1)" by (simp add: e)
    from 1 2 show ?thesis by blast
  next
    case False
    define m where "m = \<lceil>1 / a\<rceil> - 1"
    from False assms have "1 < 1 / a" by simp
    then have m: "0 < m" unfolding m_def by linarith
    from bitlen_bounds [OF m]
    have lo: "2 ^ nat (bitlen m - 1) \<le> m" and hi: "m < 2 ^ nat (bitlen m)" by simp_all
    from m have b: "1 \<le> bitlen m"
      using bitlen_eq_zero_iff [of m] bitlen_nonneg [of m] by linarith
    have e: "ilog2 a = - bitlen m" using False by (simp add: ilog2_def m_def)
    have "1 / a \<le> of_int (m + 1)" unfolding m_def by simp
    also have "\<dots> \<le> of_int (2 ^ nat (bitlen m))"
      using hi by (simp only: of_int_le_iff add1_zle_eq)
    finally have "1 / a \<le> 2 ^ nat (bitlen m)" by simp
    with assms have "1 / 2 ^ nat (bitlen m) \<le> a"
      by (simp add: field_simps)
    moreover have "(2::rat) powi (- bitlen m) = 1 / 2 ^ nat (bitlen m)"
      using b by (simp add: power_int_minus_divide) (simp add: power_int_def)
    ultimately have 1: "2 powi (ilog2 a) \<le> a" by (simp add: e)
    have "of_int (2 ^ nat (bitlen m - 1)) \<le> (of_int m :: rat)"
      using lo by (simp only: of_int_le_iff)
    also have "of_int m < 1 / a" unfolding m_def by linarith
    finally have "2 ^ nat (bitlen m - 1) < 1 / a" by simp
    with assms have "a < 1 / 2 ^ nat (bitlen m - 1)"
      by (simp add: field_simps)
    moreover have "(2::rat) powi (- bitlen m + 1) = 1 / 2 ^ nat (bitlen m - 1)"
    proof -
      have "- bitlen m + 1 = - (bitlen m - 1)" by simp
      then have "(2::rat) powi (- bitlen m + 1) = 1 / 2 powi (bitlen m - 1)"
        by (simp only: power_int_minus_divide)
      also have "(2::rat) powi (bitlen m - 1) = 2 ^ nat (bitlen m - 1)"
        using b by (simp add: power_int_def)
      finally show ?thesis .
    qed
    ultimately have 2: "a < 2 powi (ilog2 a + 1)" by (simp add: e)
    from 1 2 show ?thesis by blast
  qed
  then show "2 powi (ilog2 a) \<le> a" and "a < 2 powi (ilog2 a + 1)" by blast+
qed


lemma fp_round_error:
  assumes p: "0 < p"
  shows "\<bar>fp_round p x - x\<bar> \<le> \<bar>x\<bar> / 2 ^ p"
proof (cases "x = 0")
  case True
  then show ?thesis by (simp add: fp_round_def)
next
  case False
  define a where "a = \<bar>x\<bar>"
  define u :: rat where "u = 2 powi (ilog2 a - int p + 1)"
  define m where "m = round_half_even (a / u)"
  from False have a: "0 < a" by (simp add: a_def)
  have u: "0 < u" by (simp add: u_def)
  have fr: "fp_round p x = sgn x * of_int m * u"
    using False by (simp add: fp_round_def Let_def a_def u_def m_def)
  have x: "x = sgn x * a" by (simp add: a_def sgn_mult_abs)
  have "fp_round p x - x = sgn x * (of_int m * u - a)"
    by (subst (2) x) (simp add: fr algebra_simps)
  then have "\<bar>fp_round p x - x\<bar> = \<bar>of_int m * u - a\<bar>"
    using False by (simp add: abs_mult abs_sgn_eq)
  also have "of_int m * u - a = (of_int m - a / u) * u"
    using u by (simp add: field_simps)
  also have "\<bar>(of_int m - a / u) * u\<bar> = \<bar>of_int m - a / u\<bar> * u"
    using u by (simp add: abs_mult)
  also have "\<dots> \<le> 1 / 2 * u"
    using round_half_even_error [of "a / u"] u
    by (intro mult_right_mono) (simp_all add: m_def)
  also have "1 / 2 * u = 2 powi (ilog2 a) / 2 ^ p"
  proof -
    have "ilog2 a - int p + 1 = ilog2 a + (1 - int p)" by simp
    then have "u = 2 powi (ilog2 a) * 2 powi (1 - int p)"
      unfolding u_def by (simp only: power_int_add [of "2::rat", simplified])
    moreover have "(2::rat) powi (1 - int p) = 2 / 2 ^ p"
    proof -
      have "1 - int p = - int (p - 1)" using p by simp
      then have "(2::rat) powi (1 - int p) = 1 / 2 ^ (p - 1)"
        by (simp only: power_int_minus_divide power_int_of_nat)
      also have "\<dots> = 2 / 2 ^ p"
        using p by (cases p) simp_all
      finally show ?thesis .
    qed
    ultimately show ?thesis by simp
  qed
  also have "\<dots> \<le> a / 2 ^ p"
    using ilog2_bounds(1) [OF a] by (simp add: divide_right_mono)
  finally show ?thesis by (simp add: a_def)
qed

lemma fp_round_sign:
  assumes p: "0 < p"
  shows "(0 < fp_round p x) = (0 < x)" and "(fp_round p x < 0) = (x < 0)"
    and "(fp_round p x = 0) = (x = 0)"
proof -
  have "(2::rat) ^ 1 \<le> 2 ^ p" using p by (intro power_increasing) simp_all
  then have "\<bar>x\<bar> / 2 ^ p \<le> \<bar>x\<bar> / 2"
    by (intro divide_left_mono) simp_all
  with fp_round_error [OF p, of x] have e: "\<bar>fp_round p x - x\<bar> \<le> \<bar>x\<bar> / 2" by linarith
  then show "(0 < fp_round p x) = (0 < x)" and "(fp_round p x < 0) = (x < 0)"
    and "(fp_round p x = 0) = (x = 0)"
    by (auto simp: abs_if split: if_splits)
qed

lemma fp_round_of_int_exact:
  assumes n: "\<bar>n\<bar> < 2 ^ p"
  shows "fp_round p (of_int n) = of_int n"
proof (cases "n = 0")
  case True
  then show ?thesis by (simp add: fp_round_def)
next
  case False
  define a :: rat where "a = \<bar>of_int n\<bar>"
  have a_int: "a = of_int \<bar>n\<bar>" by (simp add: a_def)
  from False have a: "0 < a" by (simp add: a_def)
  have ap: "a < 2 powi (int p)"
    unfolding a_int using n by (simp only: power_int_of_nat) (metis of_int_less_iff of_int_numeral of_int_power)
  define e where "e = ilog2 a"
  have "e < int p"
  proof (rule ccontr)
    assume "\<not> e < int p"
    then have "(2::rat) powi (int p) \<le> 2 powi e"
      by (intro power_int_increasing) simp_all
    with ilog2_bounds(1) [OF a] ap show False by (simp add: e_def)
  qed
  define k where "k = nat (int p - 1 - e)"
  from \<open>e < int p\<close> have ek: "e - int p + 1 = - int k" by (simp add: k_def)
  have u: "(2::rat) powi (e - int p + 1) = 1 / 2 ^ k"
    unfolding ek by (simp only: power_int_minus_divide power_int_of_nat)
  have "a * 2 ^ k = of_int (\<bar>n\<bar> * 2 ^ k)"
    by (simp add: a_int)
  then have m: "round_half_even (a * 2 ^ k) = \<bar>n\<bar> * 2 ^ k"
    by (simp only: round_half_even_of_int)
  have "fp_round p (of_int n) = sgn (of_int n) * of_int (\<bar>n\<bar> * 2 ^ k) / 2 ^ k"
    using False by (simp add: fp_round_def Let_def u m flip: a_def e_def)
  also have "\<dots> = sgn (of_int n) * (of_int \<bar>n\<bar> :: rat)"
    by simp
  also have "\<dots> = of_int n"
    by (simp add: sgn_if)
  finally show ?thesis .
qed

lemma fixed_round_error: "\<bar>fixed_round k x - x\<bar> \<le> 1 / (2 * 10 ^ k)"
proof -
  have "fixed_round k x - x = (of_int (round_half_even (x * 10 ^ k)) - x * 10 ^ k) / 10 ^ k"
    by (simp add: fixed_round_def field_simps)
  then have "\<bar>fixed_round k x - x\<bar> = \<bar>of_int (round_half_even (x * 10 ^ k)) - x * 10 ^ k\<bar> / 10 ^ k"
    by (simp add: abs_divide)
  also have "\<dots> \<le> (1 / 2) / 10 ^ k"
    using round_half_even_error [of "x * 10 ^ k"] by (intro divide_right_mono) simp_all
  finally show ?thesis by simp
qed

text \<open>
  The run of \<open>prog_branches\<close> ends with 3 branches and 4 taken in \<open>stats\<close> (the bne
  counts in \<open>istats\<close>), and its report prints 133.3.
\<close>

lemma run_branches_counts:
  "map_option (branches \<circ> stats)
      (final_of (run (test_env prog_branches) (start_CPU prog_branches))) = Some 3
   \<and> map_option (taken \<circ> stats)
      (final_of (run (test_env prog_branches) (start_CPU prog_branches))) = Some 4
   \<and> map_option (r_taken_pct \<circ> printFinalStats)
      (final_of (run (test_env prog_branches) (start_CPU prog_branches))) = Some (Finite (1333 / 10))"
  by code_simp

text \<open>
  C6, as stated, fails after a run without a branch instruction: the branch count is 0
  and the quotient is computed all the same, with divisor 0 (it is not a number). And
  where the branch count is not 0 the report prints the quotient rounded to one decimal,
  133.3 for 4 taken of 3 branches, which is not the quotient 400/3.
\<close>

theorem taken_pct_counterexample:
  "map_option (branches \<circ> stats) (final_of (run (test_env prog_adds) (start_CPU prog_adds)))
     = Some 0
   \<and> map_option (r_taken_pct \<circ> printFinalStats)
        (final_of (run (test_env prog_adds) (start_CPU prog_adds)))
     = Some NaN
   \<and> map_option (r_taken_pct \<circ> printFinalStats)
        (final_of (run (test_env prog_branches) (start_CPU prog_branches)))
     = Some (Finite (1333 / 10))
   \<and> Finite (1333 / 10) \<noteq> Finite (100 * 4 / 3)"
  by code_simp

text \<open>
  With counters in the range of a 32-bit integer the conversions and the product
  \<^verbatim>\<open>100.0 * count\<close> are exact, so the quotient is rounded once and then printed.
\<close>

lemma taken_dividend_exact:
  assumes "\<bar>t\<bar> < 2 ^ 31"
  shows "fp_mul 53 100 (int_to_fp 53 t) = 100 * of_int t"
proof -
  from assms have "\<bar>t\<bar> < 2 ^ 53" by simp
  then have a: "int_to_fp 53 t = of_int t"
    unfolding int_to_fp_def by (rule fp_round_of_int_exact)
  from assms have "\<bar>100 * t\<bar> < 2 ^ 53" by simp
  then have "fp_round 53 (of_int (100 * t)) = of_int (100 * t)"
    by (rule fp_round_of_int_exact)
  then show ?thesis by (simp add: fp_mul_def a)
qed

lemma divisor_exact:
  assumes "\<bar>b\<bar> < 2 ^ 31"
  shows "int_to_fp 53 b = of_int b"
proof -
  from assms have "\<bar>b\<bar> < 2 ^ 53" by simp
  then show ?thesis unfolding int_to_fp_def by (rule fp_round_of_int_exact)
qed

lemma printed_quotient_error:
  "\<bar>fixed_round 1 (fp_round 53 q) - q\<bar> \<le> 1 / 20 + \<bar>q\<bar> / 2 ^ 53"
proof -
  have "\<bar>fixed_round 1 (fp_round 53 q) - fp_round 53 q\<bar> \<le> 1 / 20"
    using fixed_round_error [of 1 "fp_round 53 q"] by simp
  moreover have "\<bar>fp_round 53 q - q\<bar> \<le> \<bar>q\<bar> / 2 ^ 53"
    by (rule fp_round_error) simp
  ultimately show ?thesis by linarith
qed

lemma zero_divisor_quotient:
  "fp_div 53 (fp_mul 53 100 (int_to_fp 53 t)) (int_to_fp 53 0)
     = (if 0 < t then PosInf else if t < 0 then NegInf else NaN)"
proof -
  have z: "int_to_fp 53 0 = 0" by (simp add: int_to_fp_def fp_round_def)
  have s1: "(0 < int_to_fp 53 t) = (0 < t)" "(int_to_fp 53 t < 0) = (t < 0)"
    by (simp_all add: int_to_fp_def fp_round_sign)
  have "(0 < fp_mul 53 100 (int_to_fp 53 t)) = (0 < t)"
    "(fp_mul 53 100 (int_to_fp 53 t) < 0) = (t < 0)"
    by (simp_all add: fp_mul_def fp_round_sign zero_less_mult_iff mult_less_0_iff s1)
  then show ?thesis by (simp add: fp_div_def z)
qed

text \<open>
  C6, as amended. With a branch count other than 0 (and the counters in the range of a
  32-bit integer) the reported percentage is the double-precision quotient of 100 times
  the taken count by the branch count, printed with one decimal: it is within 0.05 plus
  the relative rounding error 2^-53 of 100 times the taken count divided by the branch
  count. The report has no guard: with a branch count of 0 the division by zero is
  performed, and gives not-a-number when the taken count is 0 as well, an infinity
  otherwise.
\<close>

theorem taken_pct_report:
  "(branches (stats c) \<noteq> 0 \<and> \<bar>taken (stats c)\<bar> < 2 ^ 31 \<and> \<bar>branches (stats c)\<bar> < 2 ^ 31 \<longrightarrow>
      r_taken_pct (printFinalStats c)
        = Finite (fixed_round 1
            (fp_round 53 (100 * of_int (taken (stats c)) / of_int (branches (stats c)))))
      \<and> \<bar>fixed_round 1
            (fp_round 53 (100 * of_int (taken (stats c)) / of_int (branches (stats c))))
          - 100 * of_int (taken (stats c)) / of_int (branches (stats c))\<bar>
        \<le> 1 / 20 + \<bar>100 * of_int (taken (stats c)) / of_int (branches (stats c))\<bar> / 2 ^ 53)
   \<and> (branches (stats c) = 0 \<longrightarrow>
      r_taken_pct (printFinalStats c)
        = (if 0 < taken (stats c) then PosInf
           else if taken (stats c) < 0 then NegInf else NaN))"
proof (intro conjI impI)
  assume h: "branches (stats c) \<noteq> 0 \<and> \<bar>taken (stats c)\<bar> < 2 ^ 31 \<and> \<bar>branches (stats c)\<bar> < 2 ^ 31"
  show "r_taken_pct (printFinalStats c)
        = Finite (fixed_round 1
            (fp_round 53 (100 * of_int (taken (stats c)) / of_int (branches (stats c)))))"
  proof -
    from h have x: "fp_mul 53 100 (int_to_fp 53 (taken (stats c))) = 100 * of_int (taken (stats c))"
      by (intro taken_dividend_exact) simp
    from h have d: "int_to_fp 53 (branches (stats c)) = of_int (branches (stats c))"
      by (intro divisor_exact) simp
    from h show ?thesis
      by (simp add: printFinalStats_def x d fp_div_def print_fixed_def)
  qed
  show "\<bar>fixed_round 1
            (fp_round 53 (100 * of_int (taken (stats c)) / of_int (branches (stats c))))
          - 100 * of_int (taken (stats c)) / of_int (branches (stats c))\<bar>
        \<le> 1 / 20 + \<bar>100 * of_int (taken (stats c)) / of_int (branches (stats c))\<bar> / 2 ^ 53"
    by (rule printed_quotient_error)
next
  assume "branches (stats c) = 0"
  then show "r_taken_pct (printFinalStats c)
        = (if 0 < taken (stats c) then PosInf
           else if taken (stats c) < 0 then NegInf else NaN)"
    using zero_divisor_quotient [of "taken (stats c)"]
    by (simp add: printFinalStats_def print_fixed_def)
qed

text \<open>
  The theorem at 4 taken of 3 branches, where the report prints 133.3, and at a machine
  without branches, where it prints not-a-number.
\<close>

theorem taken_pct_report_witness:
  "r_taken_pct (printFinalStats (blank_CPU\<lparr>stats := Stats_ctor\<lparr>branches := 3, taken := 4\<rparr>\<rparr>))
     = Finite (1333 / 10)
   \<and> \<bar>1333 / 10 - 100 * 4 / (3::rat)\<bar> \<le> 1 / 20 + \<bar>100 * 4 / (3::rat)\<bar> / 2 ^ 53
   \<and> r_taken_pct (printFinalStats blank_CPU) = NaN"
proof -
  let ?c = "blank_CPU\<lparr>stats := Stats_ctor\<lparr>branches := 3, taken := 4\<rparr>\<rparr>"
  have b: "branches (stats ?c) = 3" "taken (stats ?c) = 4" by simp_all
  have h: "branches (stats ?c) \<noteq> 0 \<and> \<bar>taken (stats ?c)\<bar> < 2 ^ 31
      \<and> \<bar>branches (stats ?c)\<bar> < 2 ^ 31"
    unfolding b by simp
  have v: "fixed_round 1 (fp_round 53 (100 * of_int 4 / of_int 3)) = 1333 / 10"
    by code_simp
  from taken_pct_report [of ?c] h
  have "r_taken_pct (printFinalStats ?c)
        = Finite (fixed_round 1
            (fp_round 53 (100 * of_int (taken (stats ?c)) / of_int (branches (stats ?c)))))"
    and "\<bar>fixed_round 1
            (fp_round 53 (100 * of_int (taken (stats ?c)) / of_int (branches (stats ?c))))
          - 100 * of_int (taken (stats ?c)) / of_int (branches (stats ?c))\<bar>
        \<le> 1 / 20 + \<bar>100 * of_int (taken (stats ?c)) / of_int (branches (stats ?c))\<bar> / 2 ^ 53"
    by blast+
  then have a: "r_taken_pct (printFinalStats ?c) = Finite (1333 / 10)"
    and e: "\<bar>1333 / 10 - 100 * 4 / (3::rat)\<bar> \<le> 1 / 20 + \<bar>100 * 4 / (3::rat)\<bar> / 2 ^ 53"
    unfolding b v by simp_all
  have "branches (stats blank_CPU) = 0" "taken (stats blank_CPU) = 0"
    by (simp_all add: blank_CPU_def Stats_ctor_def)
  with taken_pct_report [of blank_CPU]
  have n: "r_taken_pct (printFinalStats blank_CPU) = NaN"
    by simp
  from a e n show ?thesis by blast
qed

subsection \<open>Load upper immediate\<close>

lemma registerDest_ID:
  "length (resultReg s) = PIPESTAGES \<Longrightarrow> resultReg (registerDest r s) ! ID = r"
  by (simp add: registerDest_def stage_defs)

text \<open>
  C10. For an instruction with opcode 0x0f, decode records rt in the tracker's decode
  slot and leaves \<open>destReg\<close> as the instruction before left it; writeback stores the
  result of the shift in the register with that index when it is greater than 0, and
  in no register otherwise. The index is taken to be one of the 32 registers, as every
  assignment to \<open>destReg\<close> makes it.
\<close>

theorem lui_writes_stale_destReg:
  assumes op: "f_opcode (iMem_loadWord E (pc c)) = 0x0f"
    and len: "length (resultReg (stats c)) = PIPESTAGES"
    and regs: "length (regFile c) = NREGS"
    and dst: "destReg c < int NREGS"
  shows "\<exists>c'. run_body E c = Inr c'
      \<and> destReg c' = destReg c
      \<and> resultReg (stats c') ! ID = uint (f_rt (iMem_loadWord E (pc c)))
      \<and> regFile c' =
          (if destReg c > 0
           then (regFile c)[nat (destReg c) :=
                  fst (alu_op E (alu c) SHF_L (f_simm (iMem_loadWord E (pc c))) 16)]
           else regFile c)"
  using assms
  by (simp add: run_body_def fetch_def decode_def decode_reset_def decode_lui_def
      stats_registerDest_def execute_def mem_def writeback_def writeback_hilo_def Let_def
      registerDest_ID split: prod.splits)

text \<open>
  The theorem at \<open>lui $6, 0x1234\<close> on a machine whose \<open>destReg\<close> holds 5: register 5
  receives 0x12340000 and register 6 keeps its 0.
\<close>

theorem lui_writes_stale_destReg_witness:
  "f_opcode (prog_lui 0x400000) = 0x0f \<and> f_rt (prog_lui 0x400000) = 6
   \<and> map_option destReg
        (cpu_of (run_body (test_env prog_lui) ((start_CPU prog_lui)\<lparr>destReg := 5\<rparr>))) = Some 5
   \<and> map_option (reg_of 5)
        (cpu_of (run_body (test_env prog_lui) ((start_CPU prog_lui)\<lparr>destReg := 5\<rparr>)))
       = Some 0x12340000
   \<and> map_option (reg_of 6)
        (cpu_of (run_body (test_env prog_lui) ((start_CPU prog_lui)\<lparr>destReg := 5\<rparr>)))
       = Some 0"
proof -
  let ?E = "test_env prog_lui" and ?c = "(start_CPU prog_lui)\<lparr>destReg := 5\<rparr>"
  have f: "f_opcode (prog_lui 0x400000) = 0x0f" "f_rt (prog_lui 0x400000) = 6"
    by code_simp+
  have op: "f_opcode (iMem_loadWord ?E (pc ?c)) = 0x0f" by code_simp
  have len: "length (resultReg (stats ?c)) = PIPESTAGES" by code_simp
  have regs: "length (regFile ?c) = NREGS" by code_simp
  have dst: "destReg ?c < int NREGS" by (simp add: NREGS_def)
  from lui_writes_stale_destReg [OF op len regs dst]
  obtain c' where r: "run_body ?E ?c = Inr c'" and d: "destReg c' = destReg ?c"
    and rf: "regFile c' =
          (if destReg ?c > 0
           then (regFile ?c)[nat (destReg ?c) :=
                  fst (alu_op ?E (alu ?c) SHF_L (f_simm (iMem_loadWord ?E (pc ?c))) 16)]
           else regFile ?c)"
    by blast
  have v: "(if destReg ?c > 0
           then (regFile ?c)[nat (destReg ?c) :=
                  fst (alu_op ?E (alu ?c) SHF_L (f_simm (iMem_loadWord ?E (pc ?c))) 16)]
           else regFile ?c) ! 5 = 0x12340000"
      "(if destReg ?c > 0
           then (regFile ?c)[nat (destReg ?c) :=
                  fst (alu_op ?E (alu ?c) SHF_L (f_simm (iMem_loadWord ?E (pc ?c))) 16)]
           else regFile ?c) ! 6 = 0"
    by code_simp+
  from r d rf v have "map_option destReg (cpu_of (run_body ?E ?c)) = Some 5"
    "map_option (reg_of 5) (cpu_of (run_body ?E ?c)) = Some 0x12340000"
    "map_option (reg_of 6) (cpu_of (run_body ?E ?c)) = Some 0"
    by (simp_all add: cpu_of_def reg_of_def)
  with f show ?thesis by blast
qed

end
